theory Spec2Isabelle
  imports Main "HOL-Library.AList"
begin

section \<open>Python values and string operations used by mayors.py\<close>

text \<open>
  A Python \<open>str\<close> is modelled as a HOL \<open>string\<close>; a \<open>char\<close> stands for the code
  point of the same number (0 to 255).  The values stored in a mayor record are
  strings or \<open>None\<close> (the \<open>.string\<close> of a tag with several children is \<open>None\<close>).
\<close>

datatype pyval = PNone | PStr string

datatype py_error =
  IndexError | KeyError | TypeError | ValueError | AttributeError | HTTPError

text \<open>Truth value of \<open>if p:\<close> for \<open>None\<close> and for a string.\<close>

fun truthy :: "pyval \<Rightarrow> bool" where
  "truthy PNone = False"
| "truthy (PStr s) = (s \<noteq> [])"

text \<open>\<open>s.replace(old, new)\<close> for a one-character \<open>old\<close>, the only use in the source.\<close>

definition py_replace :: "char \<Rightarrow> string \<Rightarrow> string \<Rightarrow> string" where
  "py_replace old new s = concat (map (\<lambda>c. if c = old then new else [c]) s)"

text \<open>\<open>s.split(sep)\<close> for a one-character \<open>sep\<close>: always at least one piece.\<close>

fun py_split :: "char \<Rightarrow> string \<Rightarrow> string list" where
  "py_split sep [] = [[]]"
| "py_split sep (c # cs) =
     (if c = sep then [] # py_split sep cs
      else (case py_split sep cs of
              [] \<Rightarrow> [[c]]
            | p # ps \<Rightarrow> (c # p) # ps))"

text \<open>\<open>sub in s\<close> on strings: \<open>sub\<close> occurs somewhere in \<open>s\<close>.\<close>

fun starts_with :: "string \<Rightarrow> string \<Rightarrow> bool" where
  "starts_with [] s = True"
| "starts_with (p # ps) [] = False"
| "starts_with (p # ps) (c # cs) = (p = c \<and> starts_with ps cs)"

fun py_in_str :: "string \<Rightarrow> string \<Rightarrow> bool" where
  "py_in_str sub [] = (sub = [])"
| "py_in_str sub (c # cs) = (starts_with sub (c # cs) \<or> py_in_str sub cs)"

text \<open>
  \<open>str.isspace\<close> on the code points below 256: TAB, LF, VT, FF, CR, the four
  separators 28 to 31, space, NEL (133) and the no-break space (160).
\<close>

definition py_isspace :: "char \<Rightarrow> bool" where
  "py_isspace c = ((of_char c :: nat) \<in> {9, 10, 11, 12, 13, 28, 29, 30, 31, 32, 133, 160})"

definition py_strip :: "string \<Rightarrow> string" where
  "py_strip s = rev (dropWhile py_isspace (rev (dropWhile py_isspace s)))"

text \<open>\<open>s.split()\<close> with no argument: the maximal runs of non-whitespace.\<close>

fun split_ws :: "string \<Rightarrow> string \<Rightarrow> string list" where
  "split_ws cur [] = (if cur = [] then [] else [cur])"
| "split_ws cur (c # cs) =
     (if py_isspace c then (if cur = [] then split_ws [] cs else cur # split_ws [] cs)
      else split_ws (cur @ [c]) cs)"

definition py_split_ws :: "string \<Rightarrow> string list" where
  "py_split_ws s = split_ws [] s"

section \<open>parse\_phone\<close>

text \<open>
  \<^verbatim>\<open>
  def parse_phone(p):
      if p:
          p = p.replace('(','').replace(')', '').replace(' ', '-')
      return p
  \<close>
\<close>

fun parse_phone :: "pyval \<Rightarrow> pyval" where
  "parse_phone PNone = PNone"
| "parse_phone (PStr s) =
     (if truthy (PStr s)
      then PStr (py_replace CHR '' '' ''-'' (py_replace CHR '')'' [] (py_replace CHR ''('' [] s)))
      else PStr s)"

section \<open>The parse tree\<close>

text \<open>
  BeautifulSoup's tree has two kinds of node: a \<open>NavigableString\<close> (a \<open>str\<close>
  subclass) and a \<open>Tag\<close> with its name, its attributes and its children
  (\<open>.contents\<close>).  The trees are those the \<open>html.parser\<close> builder produces: a tag
  name starts with a letter, and \<open>br\<close> is a void element without children.
\<close>

datatype node =
  NavigableString string
| Tag string "(string \<times> string) list" "node list"

text \<open>\<open>node.name\<close>: \<open>None\<close> on a string, the tag name on a tag.\<close>

fun node_name :: "node \<Rightarrow> string option" where
  "node_name (NavigableString s) = None"
| "node_name (Tag n a cs) = Some n"

text \<open>\<open>tag.contents\<close>; the source reads it from tags only.\<close>

fun contents :: "node \<Rightarrow> node list" where
  "contents (NavigableString s) = []"
| "contents (Tag n a cs) = cs"

text \<open>All nodes below a node, in document order (\<open>tag.descendants\<close>).\<close>

fun descendants :: "node \<Rightarrow> node list" where
  "descendants (NavigableString s) = []"
| "descendants (Tag n a cs) = concat (map (\<lambda>c. c # descendants c) cs)"

text \<open>\<open>tag.find_all(name)\<close> and \<open>tag.find(name)\<close>: the descendant tags of that name.\<close>

definition find_all :: "string \<Rightarrow> node \<Rightarrow> node list" where
  "find_all nm t = filter (\<lambda>d. node_name d = Some nm) (descendants t)"

definition find :: "string \<Rightarrow> node \<Rightarrow> node option" where
  "find nm t = (case find_all nm t of [] \<Rightarrow> None | d # ds \<Rightarrow> Some d)"

text \<open>
  \<^verbatim>\<open>
  for br in mayor_ul.find_all('br'):
      br.decompose() # delete from the tree
  \<close>
  Every \<open>br\<close> below the list is taken out of the tree.  A list nested in another one
  has lost its \<open>br\<close> nodes when its turn comes, which is what removing them again
  from the original subtree gives.
\<close>

fun decompose_br :: "node \<Rightarrow> node" where
  "decompose_br (NavigableString s) = NavigableString s"
| "decompose_br (Tag n a cs) =
     Tag n a (map decompose_br (filter (\<lambda>c. node_name c \<noteq> Some ''br'') cs))"

text \<open>
  \<open>x in item\<close> for a plain string \<open>x\<close>: a substring test on a \<open>NavigableString\<close>;
  on a \<open>Tag\<close> it is \<open>x in item.contents\<close>, true when a child is a string equal
  to \<open>x\<close> (a string never equals a tag).
\<close>

fun py_in :: "string \<Rightarrow> node \<Rightarrow> bool" where
  "py_in x (NavigableString s) = py_in_str x s"
| "py_in x (Tag n a cs) = (NavigableString x \<in> set cs)"

text \<open>
  \<open>node.string\<close>: a string is its own \<open>.string\<close>; a tag with exactly one child has
  the \<open>.string\<close> of that child; any other tag has \<open>None\<close>.
\<close>

fun dot_string :: "node \<Rightarrow> pyval" where
  "dot_string (NavigableString s) = PStr s"
| "dot_string (Tag n a [c]) = dot_string c"
| "dot_string (Tag n a cs) = PNone"

text \<open>
  \<open>node[key]\<close>: indexing a \<open>str\<close> with a string raises TypeError; on a tag it is
  \<open>attrs[key]\<close>, KeyError when the attribute is missing.  \<open>tag.get(key)\<close> gives
  \<open>None\<close> instead.
\<close>

fun getitem :: "node \<Rightarrow> string \<Rightarrow> py_error + string" where
  "getitem (NavigableString s) k = Inl TypeError"
| "getitem (Tag n a cs) k = (case map_of a k of None \<Rightarrow> Inl KeyError | Some v \<Rightarrow> Inr v)"

fun dot_get :: "node \<Rightarrow> string \<Rightarrow> string option" where
  "dot_get (NavigableString s) k = None"
| "dot_get (Tag n a cs) k = map_of a k"

text \<open>
  \<open>node.split(sep)\<close>.  On a \<open>NavigableString\<close> it is \<open>str.split\<close>.  On a \<open>Tag\<close>
  the attribute \<open>split\<close> is \<open>tag.find('split')\<close>: when there is no such descendant
  the call is \<open>None(sep)\<close>, a TypeError; otherwise calling the found tag is
  \<open>find_all(sep)\<close>, and since no tag is named \<open>,\<close> or \<open>:\<close> the result has no
  element, so that every index into it raises IndexError.
\<close>

fun dot_split :: "char \<Rightarrow> node \<Rightarrow> py_error + string list" where
  "dot_split sep (NavigableString s) = Inr (py_split sep s)"
| "dot_split sep (Tag n a cs) =
     (case find ''split'' (Tag n a cs) of None \<Rightarrow> Inl TypeError | Some t \<Rightarrow> Inr [])"

text \<open>\<open>xs[i]\<close> for an index that is not negative.\<close>

definition py_index :: "'a list \<Rightarrow> nat \<Rightarrow> py_error + 'a" where
  "py_index xs i = (if i < length xs then Inr (xs ! i) else Inl IndexError)"

text \<open>Sequencing of steps that may raise: the first exception ends the evaluation.\<close>

definition and_then :: "py_error + 'a \<Rightarrow> ('a \<Rightarrow> py_error + 'b) \<Rightarrow> py_error + 'b" where
  "and_then r f = (case r of Inl e \<Rightarrow> Inl e | Inr x \<Rightarrow> f x)"

section \<open>Dates: datetime.strptime and strftime\<close>

definition is_digit :: "char \<Rightarrow> bool" where
  "is_digit c = (48 \<le> (of_char c :: nat) \<and> (of_char c :: nat) \<le> 57)"

definition digit_val :: "char \<Rightarrow> nat" where
  "digit_val c = of_char c - 48"

text \<open>
  The directives of \<open>"%m/%d/%Y"\<close> as the regular expressions of \<open>_strptime\<close>:
  \<open>%m\<close> is \<open>1[0-2]|0[1-9]|[1-9]\<close>, \<open>%d\<close> is \<open>3[01]|[12]\d|0[1-9]|[1-9]| [1-9]\<close>
  and \<open>%Y\<close> is \<open>\d\d\d\d\<close>.  Each function gives the number read, or \<open>None\<close>
  when the text does not match.
\<close>

fun month_of :: "string \<Rightarrow> nat option" where
  "month_of [a] = (if is_digit a \<and> a \<noteq> CHR ''0'' then Some (digit_val a) else None)"
| "month_of [a, b] =
     (if a = CHR ''1'' \<and> b \<in> set ''012'' then Some (10 + digit_val b)
      else if a = CHR ''0'' \<and> is_digit b \<and> b \<noteq> CHR ''0'' then Some (digit_val b)
      else None)"
| "month_of s = None"

fun day_of :: "string \<Rightarrow> nat option" where
  "day_of [a] = (if is_digit a \<and> a \<noteq> CHR ''0'' then Some (digit_val a) else None)"
| "day_of [a, b] =
     (if a = CHR ''3'' \<and> b \<in> set ''01'' then Some (30 + digit_val b)
      else if a \<in> set ''12'' \<and> is_digit b then Some (10 * digit_val a + digit_val b)
      else if a \<in> set ''0 '' \<and> is_digit b \<and> b \<noteq> CHR ''0'' then Some (digit_val b)
      else None)"
| "day_of s = None"

fun year_of :: "string \<Rightarrow> nat option" where
  "year_of [a, b, c, d] =
     (if is_digit a \<and> is_digit b \<and> is_digit c \<and> is_digit d
      then Some (1000 * digit_val a + 100 * digit_val b + 10 * digit_val c + digit_val d)
      else None)"
| "year_of s = None"

definition is_leap :: "nat \<Rightarrow> bool" where
  "is_leap y = (y mod 4 = 0 \<and> (y mod 100 \<noteq> 0 \<or> y mod 400 = 0))"

definition days_in_month :: "nat \<Rightarrow> nat \<Rightarrow> nat" where
  "days_in_month y m =
     (if m = 2 then (if is_leap y then 29 else 28)
      else if m \<in> {4, 6, 9, 11} then 30 else 31)"

text \<open>
  \<open>datetime.strptime(s, "%m/%d/%Y")\<close>: the whole of \<open>s\<close> must be month, slash,
  day, slash, year (none of the three patterns contains a slash, so these are the
  three pieces of \<open>s\<close> between slashes); the date must exist, in a year from 1 on.
  Everything else raises ValueError.  The result is (year, month, day).
\<close>

definition strptime :: "string \<Rightarrow> py_error + (nat \<times> nat \<times> nat)" where
  "strptime s =
     (case py_split CHR ''/'' s of
        [ms, ds, ys] \<Rightarrow>
          (case (month_of ms, day_of ds, year_of ys) of
             (Some m, Some d, Some y) \<Rightarrow>
               (if y = 0 \<or> days_in_month y m < d then Inl ValueError else Inr (y, m, d))
           | _ \<Rightarrow> Inl ValueError)
      | _ \<Rightarrow> Inl ValueError)"

text \<open>Decimal notation of a natural number (\<open>str(n)\<close>), and zero padding to a width.\<close>

fun py_str_nat :: "nat \<Rightarrow> string" where
  "py_str_nat n =
     (if n < 10 then [char_of (48 + n)]
      else py_str_nat (n div 10) @ [char_of (48 + n mod 10)])"

declare py_str_nat.simps [simp del]

definition zero_pad :: "nat \<Rightarrow> string \<Rightarrow> string" where
  "zero_pad w s = replicate (w - length s) CHR ''0'' @ s"

text \<open>
  \<open>d.strftime("%Y-%m-%d")\<close>: month and day on two digits.  \<open>%Y\<close> is the C
  library's: with glibc the year is written as a plain decimal number, without
  padding, so that the year 999 gives three digits; from the year 1000 on there
  are four.
\<close>

definition strftime :: "nat \<times> nat \<times> nat \<Rightarrow> string" where
  "strftime dt =
     (case dt of (y, m, d) \<Rightarrow>
        py_str_nat y @ ''-'' @ zero_pad 2 (py_str_nat m) @ ''-''
          @ zero_pad 2 (py_str_nat d))"

section \<open>get\_mayors\_for\_state\<close>

text \<open>
  A mayor record is the dict \<open>data\<close>: keys in insertion order; assigning to a key
  that is present keeps its place (\<open>AList.update\<close>).
\<close>

type_synonym mayor = "(string \<times> pyval) list"

datatype level = INFO | ERROR

text \<open>One call of the \<open>logging\<close> module: level, message and positional arguments.\<close>

datatype log_record = LogRecord level string "node list list"

text \<open>
  \<^verbatim>\<open>
  data = {
      # items[0] == \n
      'img_url': items[1]['src'],
      'name': items[2].string,
      'city': items[3].split(',')[0].strip(),
      'state': items[3].split(',')[1].strip(),
  }
  \<close>
  The entries are evaluated in this order, and the first exception ends the display.
\<close>

definition common_fields :: "node list \<Rightarrow> py_error + mayor" where
  "common_fields items =
     and_then (py_index items 1) (\<lambda>i1.
     and_then (getitem i1 ''src'') (\<lambda>img.
     and_then (py_index items 2) (\<lambda>i2.
     and_then (py_index items 3) (\<lambda>i3.
     and_then (dot_split CHR '','' i3) (\<lambda>ps.
     and_then (py_index ps 0) (\<lambda>c.
     and_then (py_index items 3) (\<lambda>i3'.
     and_then (dot_split CHR '','' i3') (\<lambda>ps'.
     and_then (py_index ps' 1) (\<lambda>st.
       Inr [(''img_url'', PStr img), (''name'', dot_string i2),
            (''city'', PStr (py_strip c)), (''state'', PStr (py_strip st))])))))))))"

text \<open>
  \<^verbatim>\<open>
  if 'Population' in item:
      data['population'] = item.split(':')[1].replace(',', '')
  \<close>
\<close>

definition match_population :: "node \<Rightarrow> mayor \<Rightarrow> py_error + mayor" where
  "match_population item data =
     (if py_in ''Population'' item
      then and_then (dot_split CHR '':'' item) (\<lambda>ps.
           and_then (py_index ps 1) (\<lambda>p.
             Inr (AList.update ''population'' (PStr (py_replace CHR '','' [] p)) data)))
      else Inr data)"

text \<open>
  \<^verbatim>\<open>
  if 'Next Election Date' in item:
      next_election = item.split(':')[1].strip()
      parsed_next_election = datetime.strptime(next_election, "%m/%d/%Y")
      data['next_election'] = parsed_next_election.strftime("%Y-%m-%d")
  \<close>
\<close>

definition match_next_election :: "node \<Rightarrow> mayor \<Rightarrow> py_error + mayor" where
  "match_next_election item data =
     (if py_in ''Next Election Date'' item
      then and_then (dot_split CHR '':'' item) (\<lambda>ps.
           and_then (py_index ps 1) (\<lambda>p.
           and_then (strptime (py_strip p)) (\<lambda>parsed_next_election.
             Inr (AList.update ''next_election'' (PStr (strftime parsed_next_election)) data))))
      else Inr data)"

text \<open>
  \<^verbatim>\<open>
  if item.name == 'a':
      if 'Web Site' in item:
         data['city_site_url'] = item['href']
      elif 'Bio' in item:
          data['bio_url'] = item['href']
      elif 'tel:' in item.get('href'):
          data['phone'] = parse_phone(item.string)
      elif 'mailto:' in item.get('href'):
          data['email'] = item.string
  \<close>
  \<open>'tel:' in None\<close> raises TypeError.
\<close>

definition match_link :: "node \<Rightarrow> mayor \<Rightarrow> py_error + mayor" where
  "match_link item data =
     (if node_name item = Some ''a'' then
        (if py_in ''Web Site'' item
         then and_then (getitem item ''href'') (\<lambda>h.
                Inr (AList.update ''city_site_url'' (PStr h) data))
         else if py_in ''Bio'' item
         then and_then (getitem item ''href'') (\<lambda>h.
                Inr (AList.update ''bio_url'' (PStr h) data))
         else (case dot_get item ''href'' of
                 None \<Rightarrow> Inl TypeError
               | Some h \<Rightarrow>
                   (if py_in_str ''tel:'' h
                    then Inr (AList.update ''phone'' (parse_phone (dot_string item)) data)
                    else if py_in_str ''mailto:'' h
                    then Inr (AList.update ''email'' (dot_string item) data)
                    else Inr data)))
      else Inr data)"

text \<open>The body of \<open>for item in items\<close>, and the loop.\<close>

definition match_item :: "node \<Rightarrow> mayor \<Rightarrow> py_error + mayor" where
  "match_item item data =
     and_then (match_population item data) (\<lambda>data1.
     and_then (match_next_election item data1) (\<lambda>data2.
       match_link item data2))"

fun match_items :: "node list \<Rightarrow> mayor \<Rightarrow> py_error + mayor" where
  "match_items [] data = Inr data"
| "match_items (item # items) data = and_then (match_item item data) (match_items items)"

text \<open>
  \<^verbatim>\<open>
  parsed_list = []
  for mayor_ul in mayor_list:
      for br in mayor_ul.find_all('br'):
          br.decompose() # delete from the tree
      items = mayor_ul.contents
      try:
          data = {...}
      except IndexError:
          logging.error('unable to get common fields from', items)
          continue
      for item in items:
          ...
      parsed_list.append(data)
  return parsed_list
  \<close>
  The function carries the list built so far and the log; an exception other than
  the IndexError of the \<open>try\<close> block leaves the function.
\<close>

fun parse_mayor_list ::
  "node list \<Rightarrow> mayor list \<Rightarrow> log_record list \<Rightarrow> (py_error + mayor list) \<times> log_record list"
where
  "parse_mayor_list [] parsed_list lg = (Inr parsed_list, lg)"
| "parse_mayor_list (mayor_ul # rest) parsed_list lg =
     (let items = contents (decompose_br mayor_ul) in
      case common_fields items of
        Inl e \<Rightarrow>
          (if e = IndexError
           then parse_mayor_list rest parsed_list
                  (lg @ [LogRecord ERROR ''unable to get common fields from'' [items]])
           else (Inl e, lg))
      | Inr data \<Rightarrow>
          (case match_items items data of
             Inl e \<Rightarrow> (Inl e, lg)
           | Inr data' \<Rightarrow> parse_mayor_list rest (parsed_list @ [data']) lg))"

text \<open>
  The outcome of the request for one state: \<open>requests.post\<close> or
  \<open>raise_for_status\<close> raised, or the body was parsed and
  \<open>page.select_one('div.post-content')\<close> gave a tag or \<open>None\<close>.
\<close>

datatype response = Failed py_error | Page "node option"

text \<open>
  \<^verbatim>\<open>
  response.raise_for_status()
  page = BeautifulSoup(response.text, 'html.parser')
  content = page.select_one('div.post-content')
  mayor_list = content.find_all('ul')
  if not mayor_list:
      logging.info(f'no mayors found for {state}')
      return []
  logging.info(f'found {len(mayor_list)} mayors for {state}')
  \<close>
  \<open>content.find_all\<close> on \<open>None\<close> raises AttributeError.
\<close>

definition get_mayors_for_state ::
  "(string \<Rightarrow> response) \<Rightarrow> string \<Rightarrow> log_record list
     \<Rightarrow> (py_error + mayor list) \<times> log_record list"
where
  "get_mayors_for_state post state lg =
     (case post state of
        Failed e \<Rightarrow> (Inl e, lg)
      | Page None \<Rightarrow> (Inl AttributeError, lg)
      | Page (Some content) \<Rightarrow>
          (let mayor_list = find_all ''ul'' content in
           if mayor_list = []
           then (Inr [], lg @ [LogRecord INFO (''no mayors found for '' @ state) []])
           else parse_mayor_list mayor_list []
                  (lg @ [LogRecord INFO
                     (''found '' @ py_str_nat (length mayor_list) @ '' mayors for '' @ state) []])))"


section \<open>get\_mayors\<close>

text \<open>
  \<^verbatim>\<open>
  def get_mayors(states=ALL_STATES):
      for state in states:
          for mayor in get_mayors_for_state(state):
              yield mayor
  \<close>
  What the consumer of the generator sees: the records yielded, in order, and then
  either the end of the iteration (\<open>None\<close>) or the exception that ended it.
\<close>

type_synonym mayors_gen = "mayor list \<times> py_error option"

fun get_mayors ::
  "(string \<Rightarrow> response) \<Rightarrow> string list \<Rightarrow> log_record list \<Rightarrow> mayors_gen \<times> log_record list"
where
  "get_mayors post [] lg = (([], None), lg)"
| "get_mayors post (state # states) lg =
     (case get_mayors_for_state post state lg of
        (Inl e, lg') \<Rightarrow> (([], Some e), lg')
      | (Inr ms, lg') \<Rightarrow>
          (case get_mayors post states lg' of
             ((rest, fin), lg'') \<Rightarrow> ((ms @ rest, fin), lg'')))"

section \<open>The serializers\<close>

text \<open>
  \<open>CSV_FIELDS\<close> is a triple-quoted literal split at whitespace: a line break, the
  first eight names on one line, a line break, and the last two names.
\<close>

definition CSV_FIELDS :: "string list" where
  "CSV_FIELDS = py_split_ws
     (CHR 0x0A # ''    name email phone bio_url img_url city state population''
        @ CHR 0x0A # ''    city_site_url next_election'')"

text \<open>\<open>sep.join(xs)\<close>.\<close>

fun py_join :: "string \<Rightarrow> string list \<Rightarrow> string" where
  "py_join sep [] = []"
| "py_join sep [x] = x"
| "py_join sep (x # y # ys) = x @ sep @ py_join sep (y # ys)"

text \<open>
  The \<open>csv\<close> writer in the \<open>excel\<close> dialect (\<open>QUOTE_MINIMAL\<close>): a field holding
  the delimiter, the quote character or a character of the line terminator is put
  in quotes, with every quote doubled; fields are joined by commas and the row ends
  with CR LF.  \<open>None\<close> is written as the empty string.
\<close>

definition csv_special :: "char \<Rightarrow> bool" where
  "csv_special c = (c = CHR '','' \<or> c = CHR 0x22 \<or> c = CHR 0x0D \<or> c = CHR 0x0A)"

definition csv_field :: "string \<Rightarrow> string" where
  "csv_field s =
     (if list_ex csv_special s
      then CHR 0x22 # concat (map (\<lambda>c. if c = CHR 0x22 then [c, c] else [c]) s) @ [CHR 0x22]
      else s)"

fun csv_str :: "pyval \<Rightarrow> string" where
  "csv_str PNone = []"
| "csv_str (PStr s) = s"

definition csv_writerow :: "pyval list \<Rightarrow> string \<Rightarrow> string" where
  "csv_writerow row out =
     out @ py_join '','' (map (\<lambda>v. csv_field (csv_str v)) row) @ [CHR 0x0D, CHR 0x0A]"

text \<open>
  \<open>DictWriter(out, CSV_FIELDS)\<close> with its defaults \<open>restval=''\<close> and
  \<open>extrasaction='raise'\<close>: a key outside the field names raises ValueError; a
  field name the dict lacks gets \<open>restval\<close>.
\<close>

definition dict_to_list :: "string list \<Rightarrow> mayor \<Rightarrow> py_error + pyval list" where
  "dict_to_list fieldnames rowdict =
     (if list_ex (\<lambda>k. k \<notin> set fieldnames) (map fst rowdict) then Inl ValueError
      else Inr (map (\<lambda>key. case map_of rowdict key of None \<Rightarrow> PStr [] | Some v \<Rightarrow> v)
                  fieldnames))"

definition writeheader :: "string list \<Rightarrow> string \<Rightarrow> string" where
  "writeheader fieldnames out = csv_writerow (map PStr fieldnames) out"

text \<open>
  \<^verbatim>\<open>
  def write_to_csv(mayors, out):
      w = csv.DictWriter(out, CSV_FIELDS)
      w.writeheader()
      for mayor in mayors:
          w.writerow(mayor)
  \<close>
  \<open>out\<close> is the text written to the sink so far.  The result is the exception that
  ended the call, if any, and the sink.
\<close>

fun writerows :: "mayor list \<Rightarrow> py_error option \<Rightarrow> string \<Rightarrow> py_error option \<times> string" where
  "writerows [] fin out = (fin, out)"
| "writerows (mayor # mayors) fin out =
     (case dict_to_list CSV_FIELDS mayor of
        Inl e \<Rightarrow> (Some e, out)
      | Inr row \<Rightarrow> writerows mayors fin (csv_writerow row out))"

definition write_to_csv :: "mayors_gen \<Rightarrow> string \<Rightarrow> py_error option \<times> string" where
  "write_to_csv mayors out = writerows (fst mayors) (snd mayors) (writeheader CSV_FIELDS out)"

text \<open>
  \<open>json.dump(obj, out, indent=4)\<close> on a list of dicts whose values are strings or
  \<open>None\<close>.  Strings are escaped as \<open>ensure_ascii\<close> does; an empty list is \<open>[]\<close> and an
  empty dict \<open>{}\<close>; otherwise every element stands on a line of its own, indented by
  four spaces per nesting level, the elements separated by a comma at the end of
  the line, and a key is followed by a colon and a space.
\<close>

definition hex_digit :: "nat \<Rightarrow> char" where
  "hex_digit n = ''0123456789abcdef'' ! (n mod 16)"

definition json_escape :: "char \<Rightarrow> string" where
  "json_escape c =
     (if c = CHR 0x22 then [CHR 0x5C, CHR 0x22]
      else if c = CHR 0x5C then [CHR 0x5C, CHR 0x5C]
      else if c = CHR 0x0A then [CHR 0x5C, CHR ''n'']
      else if c = CHR 0x0D then [CHR 0x5C, CHR ''r'']
      else if c = CHR 0x09 then [CHR 0x5C, CHR ''t'']
      else if c = CHR 0x08 then [CHR 0x5C, CHR ''b'']
      else if c = CHR 0x0C then [CHR 0x5C, CHR ''f'']
      else if (of_char c :: nat) < 32 \<or> 126 < (of_char c :: nat)
      then [CHR 0x5C, CHR ''u'', CHR ''0'', CHR ''0'',
            hex_digit (of_char c div 16), hex_digit (of_char c)]
      else [c])"

definition json_string :: "string \<Rightarrow> string" where
  "json_string s = CHR 0x22 # concat (map json_escape s) @ [CHR 0x22]"

fun json_value :: "pyval \<Rightarrow> string" where
  "json_value PNone = ''null''"
| "json_value (PStr s) = json_string s"

definition newline_indent :: "nat \<Rightarrow> string" where
  "newline_indent lvl = CHR 0x0A # replicate (4 * lvl) CHR '' ''"

definition json_dict :: "nat \<Rightarrow> mayor \<Rightarrow> string" where
  "json_dict lvl dct =
     (if dct = [] then ''{}''
      else ''{'' @ newline_indent (lvl + 1)
           @ py_join ('','' @ newline_indent (lvl + 1))
               (map (\<lambda>kv. json_string (fst kv) @ '': '' @ json_value (snd kv)) dct)
           @ newline_indent lvl @ ''}'')"

definition json_list :: "nat \<Rightarrow> mayor list \<Rightarrow> string" where
  "json_list lvl lst =
     (if lst = [] then ''[]''
      else ''['' @ newline_indent (lvl + 1)
           @ py_join ('','' @ newline_indent (lvl + 1)) (map (json_dict (lvl + 1)) lst)
           @ newline_indent lvl @ '']'')"

text \<open>
  \<^verbatim>\<open>
  def write_to_json(mayors, out):
      json.dump(list(mayors), out, indent=4)
  \<close>
  \<open>list(mayors)\<close> runs the generator to its end first: when that raises, nothing
  has been written.
\<close>

definition write_to_json :: "mayors_gen \<Rightarrow> string \<Rightarrow> py_error option \<times> string" where
  "write_to_json mayors out =
     (case snd mayors of
        Some e \<Rightarrow> (Some e, out)
      | None \<Rightarrow> (None, out @ json_list 0 (fst mayors)))"

section \<open>The script\<close>

text \<open>
  \<^verbatim>\<open>
  args = parse_arguments()
  mayors = get_mayors(states=args.state)
  args.writer(mayors, args.out)
  \<close>
  \<open>args.writer\<close> is one of the two serializers.  The run ends with the exception
  that reached the top level, if any; the exit status is zero without one.
\<close>

datatype writer = Csv | Json

definition main ::
  "(string \<Rightarrow> response) \<Rightarrow> writer \<Rightarrow> string list
     \<Rightarrow> (py_error option \<times> string) \<times> log_record list"
where
  "main post w states =
     (case get_mayors post states [] of
        (mayors, lg) \<Rightarrow>
          ((case w of Csv \<Rightarrow> write_to_csv mayors [] | Json \<Rightarrow> write_to_json mayors []), lg))"

definition exit_status :: "(py_error option \<times> string) \<times> log_record list \<Rightarrow> nat" where
  "exit_status r = (case fst (fst r) of None \<Rightarrow> 0 | Some e \<Rightarrow> 1)"

text \<open>\<open>tag.get_text()\<close>: the strings below a node, joined in document order.\<close>

fun get_text :: "node \<Rightarrow> string" where
  "get_text (NavigableString s) = s"
| "get_text (Tag n a cs) = concat (map get_text cs)"

section \<open>The ISO form of a date, as the specification words it\<close>

text \<open>
  The two-digit form of a month or day written as in \<open>MM/DD/YYYY\<close>: a single
  digit gets a leading zero, and so does a day written with a leading space; two
  digits stay as they are.  This is the reading of \<open>YYYY-MM-DD\<close> that the result
  of \<open>strptime\<close> followed by \<open>strftime\<close> is compared with.
\<close>

definition iso_two_digits :: "string \<Rightarrow> string" where
  "iso_two_digits s =
     (case s of
        [a] \<Rightarrow> [CHR ''0'', a]
      | [a, b] \<Rightarrow> [if a = CHR '' '' then CHR ''0'' else a, b]
      | _ \<Rightarrow> s)"

section \<open>Sample pages\<close>

text \<open>
  Mayor lists as they stand in the tree before the \<open>br\<close> nodes are removed, and the
  response whose content region holds given lists.
\<close>

definition block_bad_date :: node where
  "block_bad_date = Tag ''ul'' []
     [NavigableString [CHR 0x0A], Tag ''img'' [(''src'', ''/img/lee.jpg'')] [],
      Tag ''b'' [] [NavigableString ''Ann Lee''], Tag ''br'' [] [],
      NavigableString ''Springfield, Illinois'', Tag ''br'' [] [],
      NavigableString ''Next Election Date: TBD'']"

definition short_block_bad_date :: node where
  "short_block_bad_date = Tag ''ul'' [] [NavigableString ''Next Election Date: TBD'']"

definition block_bare_link :: node where
  "block_bare_link = Tag ''ul'' []
     [NavigableString [CHR 0x0A], Tag ''img'' [(''src'', ''/img/lee.jpg'')] [],
      Tag ''b'' [] [NavigableString ''Ann Lee''], Tag ''br'' [] [],
      NavigableString ''Springfield, Illinois'', Tag ''br'' [] [],
      Tag ''a'' [(''name'', ''top'')] [NavigableString ''Contact'']]"

definition short_block_bare_link :: node where
  "short_block_bare_link = Tag ''ul'' [] [Tag ''a'' [(''name'', ''top'')] [NavigableString ''Contact'']]"

definition block_bad_date_without_photo :: node where
  "block_bad_date_without_photo = Tag ''ul'' []
     [NavigableString [CHR 0x0A],
      Tag ''b'' [] [NavigableString ''Cy Orr''], Tag ''br'' [] [],
      NavigableString ''Decatur, Illinois'', Tag ''br'' [] [],
      NavigableString ''Next Election Date: TBD'']"

definition block_date_in_tag :: node where
  "block_date_in_tag = Tag ''ul'' []
     [NavigableString [CHR 0x0A], Tag ''img'' [(''src'', ''/img/lee.jpg'')] [],
      Tag ''b'' [] [NavigableString ''Ann Lee''], Tag ''br'' [] [],
      NavigableString ''Springfield, Illinois'', Tag ''br'' [] [],
      Tag ''span'' [] [NavigableString ''Next Election Date: TBD'']]"

definition block_date_two_colons :: node where
  "block_date_two_colons = Tag ''ul'' []
     [NavigableString [CHR 0x0A], Tag ''img'' [(''src'', ''/img/lee.jpg'')] [],
      Tag ''b'' [] [NavigableString ''Ann Lee''], Tag ''br'' [] [],
      NavigableString ''Springfield, Illinois'', Tag ''br'' [] [],
      NavigableString ''Next Election Date: 11/5/2024: TBD'']"

definition page_of :: "node list \<Rightarrow> string \<Rightarrow> response" where
  "page_of blocks state = Page (Some (Tag ''div'' [(''class'', ''post-content'')] blocks))"

definition block_springfield :: node where
  "block_springfield = Tag ''ul'' []
     [NavigableString [CHR 0x0A], Tag ''img'' [(''src'', ''/img/lee.jpg'')] [],
      Tag ''b'' [] [NavigableString ''Ann Lee''], Tag ''br'' [] [],
      NavigableString ''Springfield, Illinois'', Tag ''br'' [] [],
      NavigableString ''Population: 116,250'', Tag ''br'' [] [],
      Tag ''a'' [(''href'', ''http://springfield.example'')] [NavigableString ''Web Site''],
      Tag ''br'' [] [],
      NavigableString ''Next Election Date: 11/5/2024'', Tag ''br'' [] [],
      NavigableString ''Phone: '',
      Tag ''a'' [(''href'', ''tel:5551234567'')] [NavigableString ''(555) 123-4567'']]"

definition block_peoria :: node where
  "block_peoria = Tag ''ul'' []
     [NavigableString [CHR 0x0A], Tag ''img'' [(''src'', ''/img/ray.jpg'')] [],
      Tag ''b'' [] [NavigableString ''Bob Ray''], Tag ''br'' [] [],
      NavigableString ''Peoria, Illinois'']"

definition block_without_photo :: node where
  "block_without_photo = Tag ''ul'' []
     [NavigableString [CHR 0x0A],
      Tag ''b'' [] [NavigableString ''Cy Orr''], Tag ''br'' [] [],
      NavigableString ''Decatur, Illinois'']"

section \<open>Properties\<close>

subsection \<open>Strings and trees\<close>

lemma py_split_no_sep: "sep \<notin> set a \<Longrightarrow> py_split sep a = [a]"
  by (induction a) auto

lemma py_split_first: "sep \<notin> set a \<Longrightarrow> py_split sep (a @ sep # b) = a # py_split sep b"
  by (induction a) auto

lemma py_split_nonempty: "py_split sep s \<noteq> []"
  by (induction s) (auto split: list.splits)

lemma starts_with_iff: "starts_with x s \<longleftrightarrow> (\<exists>q. s = x @ q)"
  by (induction x s rule: starts_with.induct) auto

lemma py_in_str_iff: "py_in_str x s \<longleftrightarrow> (\<exists>p q. s = p @ x @ q)"
proof (induction s)
  case Nil
  then show ?case by auto
next
  case (Cons c cs)
  show ?case
  proof
    assume "py_in_str x (c # cs)"
    then consider "starts_with x (c # cs)" | "py_in_str x cs" by auto
    then show "\<exists>p q. c # cs = p @ x @ q"
    proof cases
      case 1
      then obtain q where "c # cs = x @ q" by (auto simp: starts_with_iff)
      then have "c # cs = [] @ x @ q" by simp
      then show ?thesis by blast
    next
      case 2
      then obtain p q where "cs = p @ x @ q" using Cons.IH by blast
      then have "c # cs = (c # p) @ x @ q" by simp
      then show ?thesis by blast
    qed
  next
    assume "\<exists>p q. c # cs = p @ x @ q"
    then obtain p q where pq: "c # cs = p @ x @ q" by blast
    show "py_in_str x (c # cs)"
    proof (cases p)
      case Nil
      with pq have "starts_with x (c # cs)" by (auto simp: starts_with_iff)
      then show ?thesis by simp
    next
      case (Cons a p')
      with pq have "cs = p' @ x @ q" by simp
      then have "py_in_str x cs" using Cons.IH by blast
      then show ?thesis by simp
    qed
  qed
qed

lemma get_text_child: "c \<in> set cs \<Longrightarrow> \<exists>p q. concat (map get_text cs) = p @ get_text c @ q"
proof (induction cs)
  case Nil
  then show ?case by simp
next
  case (Cons d ds)
  show ?case
  proof (cases "c = d")
    case True
    then have "concat (map get_text (d # ds)) = [] @ get_text c @ concat (map get_text ds)" by simp
    then show ?thesis by blast
  next
    case False
    with Cons obtain p q where "concat (map get_text ds) = p @ get_text c @ q" by auto
    then have "concat (map get_text (d # ds)) = (get_text d @ p) @ get_text c @ q" by simp
    then show ?thesis by blast
  qed
qed

lemma py_in_get_text: "py_in x item \<Longrightarrow> py_in_str x (get_text item)"
proof (cases item)
  case (NavigableString s)
  assume "py_in x item"
  with NavigableString show ?thesis by simp
next
  case (Tag n a cs)
  assume "py_in x item"
  with Tag have "NavigableString x \<in> set cs" by simp
  from get_text_child[OF this] obtain p q where "concat (map get_text cs) = p @ x @ q" by auto
  with Tag show ?thesis by (auto simp: py_in_str_iff)
qed


lemma decompose_br_is_string:
  "decompose_br c = NavigableString s \<longleftrightarrow> c = NavigableString s"
  by (cases c) auto

lemma string_in_decomposed:
  "NavigableString s \<in> set (contents (decompose_br t)) \<longleftrightarrow> NavigableString s \<in> set (contents t)"
proof (cases t)
  case (NavigableString x)
  then show ?thesis by simp
next
  case (Tag n a cs)
  have "NavigableString s \<in> set (map decompose_br (filter (\<lambda>c. node_name c \<noteq> Some ''br'') cs))
        \<longleftrightarrow> NavigableString s \<in> set cs"
  proof
    assume "NavigableString s \<in> set (map decompose_br (filter (\<lambda>c. node_name c \<noteq> Some ''br'') cs))"
    then obtain c where "c \<in> set cs" "decompose_br c = NavigableString s" by auto
    then show "NavigableString s \<in> set cs" by (simp add: decompose_br_is_string)
  next
    assume "NavigableString s \<in> set cs"
    then have "NavigableString s \<in> set (filter (\<lambda>c. node_name c \<noteq> Some ''br'') cs)" by simp
    then have "decompose_br (NavigableString s) \<in> decompose_br ` set (filter (\<lambda>c. node_name c \<noteq> Some ''br'') cs)"
      by (rule imageI)
    then show "NavigableString s \<in> set (map decompose_br (filter (\<lambda>c. node_name c \<noteq> Some ''br'') cs))"
      by simp
  qed
  with Tag show ?thesis by simp
qed

lemma py_in_decompose_br: "py_in x (decompose_br t) = py_in x t"
proof (cases t)
  case (NavigableString s)
  then show ?thesis by simp
next
  case (Tag n a cs)
  have "NavigableString x \<in> set (contents (decompose_br t)) \<longleftrightarrow> NavigableString x \<in> set (contents t)"
    by (rule string_in_decomposed)
  with Tag show ?thesis by simp
qed

lemma link_in_decomposed:
  assumes "Tag ''a'' attrs cs \<in> set (contents t)"
  shows "decompose_br (Tag ''a'' attrs cs) \<in> set (contents (decompose_br t))"
proof (cases t)
  case (NavigableString s)
  with assms show ?thesis by simp
next
  case (Tag n a ds)
  with assms have "Tag ''a'' attrs cs \<in> set (filter (\<lambda>c. node_name c \<noteq> Some ''br'') ds)" by simp
  then have "decompose_br (Tag ''a'' attrs cs) \<in> decompose_br ` set (filter (\<lambda>c. node_name c \<noteq> Some ''br'') ds)"
    by (rule imageI)
  with Tag show ?thesis by simp
qed

lemma match_items_raises:
  "item \<in> set items \<Longrightarrow> (\<And>data. \<exists>e. match_item item data = Inl e)
   \<Longrightarrow> \<exists>e. match_items items data = Inl e"
proof (induction items arbitrary: data)
  case Nil
  then show ?case by simp
next
  case (Cons i items)
  show ?case
  proof (cases "match_item i data")
    case (Inl e)
    then show ?thesis by (simp add: and_then_def)
  next
    case (Inr data')
    with Cons.prems(2)[of data] have "item \<noteq> i" by auto
    with Cons.prems(1) have "item \<in> set items" by simp
    from Cons.IH[OF this Cons.prems(2)] obtain e where "match_items items data' = Inl e" by blast
    with Inr show ?thesis by (simp add: and_then_def)
  qed
qed

lemma parse_mayor_list_raises:
  assumes "mayor_ul \<in> set uls"
    and "common_fields (contents (decompose_br mayor_ul)) \<noteq> Inl IndexError"
    and "\<And>data. \<exists>e. match_items (contents (decompose_br mayor_ul)) data = Inl e"
  shows "\<exists>e lg'. parse_mayor_list uls parsed_list lg = (Inl e, lg')"
  using assms(1)
proof (induction uls arbitrary: parsed_list lg)
  case Nil
  then show ?case by simp
next
  case (Cons u uls)
  show ?case
  proof (cases "common_fields (contents (decompose_br u))")
    case (Inl e)
    show ?thesis
    proof (cases "e = IndexError")
      case True
      with Inl assms(2) have "u \<noteq> mayor_ul" by auto
      with Cons.prems have "mayor_ul \<in> set uls" by simp
      from Cons.IH[OF this] Inl True show ?thesis by simp
    next
      case False
      with Inl show ?thesis by simp
    qed
  next
    case (Inr data)
    show ?thesis
    proof (cases "match_items (contents (decompose_br u)) data")
      case (Inl e)
      with Inr show ?thesis by simp
    next
      case (Inr data')
      with assms(3) have "u \<noteq> mayor_ul" by (metis Inl_Inr_False)
      with Cons.prems have "mayor_ul \<in> set uls" by simp
      from Cons.IH[OF this] \<open>common_fields (contents (decompose_br u)) = Inr data\<close> Inr
      show ?thesis by simp
    qed
  qed
qed

lemma get_mayors_for_state_raises:
  assumes "post state = Page (Some content)"
    and "mayor_ul \<in> set (find_all ''ul'' content)"
    and "common_fields (contents (decompose_br mayor_ul)) \<noteq> Inl IndexError"
    and "\<And>data. \<exists>e. match_items (contents (decompose_br mayor_ul)) data = Inl e"
  shows "\<exists>e lg'. get_mayors_for_state post state lg = (Inl e, lg')"
proof -
  from assms(2) have ne: "find_all ''ul'' content \<noteq> []" by auto
  from parse_mayor_list_raises[OF assms(2) assms(3) assms(4)]
  show ?thesis using assms(1) ne by (simp add: get_mayors_for_state_def Let_def)
qed

lemma get_mayors_raises:
  assumes "state \<in> set states"
    and "\<And>lg. \<exists>e lg'. get_mayors_for_state post state lg = (Inl e, lg')"
  shows "\<exists>ms e lg'. get_mayors post states lg = ((ms, Some e), lg')"
  using assms(1)
proof (induction states arbitrary: lg)
  case Nil
  then show ?case by simp
next
  case (Cons s states)
  obtain r lg1 where r: "get_mayors_for_state post s lg = (r, lg1)" by (cases "get_mayors_for_state post s lg")
  show ?case
  proof (cases r)
    case (Inl e)
    with r show ?thesis by simp
  next
    case (Inr ms)
    with r assms(2)[of lg] have "s \<noteq> state" by auto
    with Cons.prems have "state \<in> set states" by simp
    from Cons.IH[OF this, of lg1] obtain ms' e lg' where "get_mayors post states lg1 = ((ms', Some e), lg')"
      by blast
    with r Inr show ?thesis by simp
  qed
qed

lemma writerows_raises: "fst (writerows ms (Some e) out) \<noteq> None"
  by (induction ms arbitrary: out) (auto split: sum.splits)

lemma main_raises:
  assumes "get_mayors post states [] = ((ms, Some e), lg')"
  shows "exit_status (main post w states) = 1"
proof (cases w)
  case Csv
  obtain r out where ro: "writerows ms (Some e) (writeheader CSV_FIELDS []) = (r, out)"
    by (cases "writerows ms (Some e) (writeheader CSV_FIELDS [])")
  with writerows_raises[of ms e "writeheader CSV_FIELDS []"] have "r \<noteq> None" by simp
  with ro Csv assms show ?thesis by (auto simp: main_def exit_status_def write_to_csv_def)
next
  case Json
  with assms show ?thesis by (simp add: main_def exit_status_def write_to_json_def)
qed

subsection \<open>Errors that end the run\<close>

lemma hd_py_split: "hd (py_split sep d) = takeWhile (\<lambda>c. c \<noteq> sep) d"
proof (induction d)
  case Nil
  then show ?case by simp
next
  case (Cons c d)
  then show ?case using py_split_nonempty[of sep d] by (cases "py_split sep d") auto
qed

lemma py_index_split_1:
  "sep \<notin> set pre \<Longrightarrow>
   py_index (py_split sep (pre @ sep # d)) 1 = Inr (takeWhile (\<lambda>c. c \<noteq> sep) d)"
proof -
  assume "sep \<notin> set pre"
  then have "py_split sep (pre @ sep # d) = pre # py_split sep d" by (rule py_split_first)
  moreover obtain p ps where "py_split sep d = p # ps"
    using py_split_nonempty[of sep d] by (cases "py_split sep d") auto
  moreover from this have "p = takeWhile (\<lambda>c. c \<noteq> sep) d" using hd_py_split[of sep d] by simp
  ultimately show ?thesis by (simp add: py_index_def)
qed

lemma match_item_bad_date:
  assumes "py_in_str ''Next Election Date'' (pre @ '':'' @ d)"
    and "CHR '':'' \<notin> set pre"
    and "strptime (py_strip (takeWhile (\<lambda>c. c \<noteq> CHR '':'') d)) = Inl ValueError"
  shows "match_item (NavigableString (pre @ '':'' @ d)) data = Inl ValueError"
proof -
  have ix: "py_index (py_split CHR '':'' (pre @ CHR '':'' # d)) 1 = Inr (takeWhile (\<lambda>c. c \<noteq> CHR '':'') d)"
    using assms(2) by (rule py_index_split_1)
  obtain data1 where d1: "match_population (NavigableString (pre @ '':'' @ d)) data = Inr data1"
    using ix by (cases "py_in_str ''Population'' (pre @ CHR '':'' # d)")
                (simp_all add: match_population_def and_then_def)
  have "match_next_election (NavigableString (pre @ '':'' @ d)) data1 = Inl ValueError"
    using assms(1) assms(3) ix by (simp add: match_next_election_def and_then_def)
  with d1 show ?thesis by (simp add: match_item_def and_then_def)
qed

lemma dot_split_tag_index: "\<exists>e. and_then (dot_split sep (Tag n a cs)) (\<lambda>ps. and_then (py_index ps i) f) = Inl e"
  by (cases "find ''split'' (Tag n a cs)") (simp_all add: and_then_def py_index_def)

lemma match_item_bare_link:
  assumes "map_of attrs ''href'' = None"
    and "\<not> py_in ''Web Site'' (Tag ''a'' attrs cs)"
    and "\<not> py_in ''Bio'' (Tag ''a'' attrs cs)"
  shows "\<exists>e. match_item (Tag ''a'' attrs cs) data = Inl e"
proof (cases "match_population (Tag ''a'' attrs cs) data")
  case (Inl e)
  then show ?thesis by (simp add: match_item_def and_then_def)
next
  case (Inr data1)
  show ?thesis
  proof (cases "match_next_election (Tag ''a'' attrs cs) data1")
    case (Inl e)
    with Inr show ?thesis by (simp add: match_item_def and_then_def)
  next
    case (Inr data2)
    have "match_link (Tag ''a'' attrs cs) data2 = Inl TypeError"
      using assms by (simp add: match_link_def)
    with Inr \<open>match_population (Tag ''a'' attrs cs) data = Inr data1\<close>
    show ?thesis by (simp add: match_item_def and_then_def)
  qed
qed

lemma match_items_append:
  "match_items (xs @ ys) data = and_then (match_items xs data) (match_items ys)"
proof (induction xs arbitrary: data)
  case Nil
  then show ?case by (simp add: and_then_def)
next
  case (Cons x xs)
  then show ?case by (cases "match_item x data") (simp_all add: and_then_def)
qed

lemma parse_mayor_list_log:
  "fst (parse_mayor_list uls parsed_list lg) = fst (parse_mayor_list uls parsed_list lg')"
proof (induction uls arbitrary: parsed_list lg lg')
  case Nil
  then show ?case by simp
next
  case (Cons u uls)
  show ?case
  proof (cases "common_fields (contents (decompose_br u))")
    case (Inl e)
    then show ?thesis using Cons.IH by (cases "e = IndexError") simp_all
  next
    case (Inr data)
    then show ?thesis
      using Cons.IH by (cases "match_items (contents (decompose_br u)) data") simp_all
  qed
qed

lemma parse_mayor_list_append:
  "parse_mayor_list (xs @ ys) parsed_list lg =
     (case parse_mayor_list xs parsed_list lg of
        (Inl e, lg') \<Rightarrow> (Inl e, lg')
      | (Inr parsed, lg') \<Rightarrow> parse_mayor_list ys parsed lg')"
proof (induction xs arbitrary: parsed_list lg)
  case Nil
  then show ?case by simp
next
  case (Cons u xs)
  show ?case
  proof (cases "common_fields (contents (decompose_br u))")
    case (Inl e)
    then show ?thesis using Cons.IH by (cases "e = IndexError") simp_all
  next
    case (Inr data)
    then show ?thesis
      using Cons.IH by (cases "match_items (contents (decompose_br u)) data") simp_all
  qed
qed

text \<open>
  C3 (as amended).  Take a mayor list whose leading fields are extracted (the
  \<open>try\<close> block raises nothing) and, among its items once the line breaks are
  removed, a text node that contains \<open>Next Election Date\<close> and whose text between
  the first colon and the next one (or the end), trimmed, does not parse as
  \<open>MM/DD/YYYY\<close>.  Then the date step raises ValueError on that node,
  \<open>get_mayors_for_state\<close> raises for that state whatever the other lists hold, and
  the run ends with a nonzero status under either serializer: there is no
  recovery per record.  When the lists before this one and the items before the
  node raise nothing, the error raised for the state is this ValueError.
\<close>

theorem unparseable_date_aborts_run:
  assumes "post state = Page (Some content)"
    and "state \<in> set states"
    and "find_all ''ul'' content = before @ mayor_ul # after"
    and "common_fields (contents (decompose_br mayor_ul)) = Inr data0"
    and "contents (decompose_br mayor_ul) = front @ NavigableString (pre @ '':'' @ rest) # back"
    and "py_in_str ''Next Election Date'' (pre @ '':'' @ rest)"
    and "CHR '':'' \<notin> set pre"
    and "strptime (py_strip (takeWhile (\<lambda>c. c \<noteq> CHR '':'') rest)) = Inl ValueError"
  shows "match_item (NavigableString (pre @ '':'' @ rest)) data = Inl ValueError
         \<and> (\<exists>e. fst (get_mayors_for_state post state lg) = Inl e)
         \<and> exit_status (main post w states) = 1
         \<and> ((\<exists>parsed. fst (parse_mayor_list before [] []) = Inr parsed)
              \<and> (\<exists>data1. match_items front data0 = Inr data1)
             \<longrightarrow> fst (get_mayors_for_state post state lg) = Inl ValueError)"
proof -
  have step: "match_item (NavigableString (pre @ '':'' @ rest)) d = Inl ValueError" for d
    using assms(6) assms(7) assms(8) by (rule match_item_bad_date)
  have ul: "mayor_ul \<in> set (find_all ''ul'' content)"
    using assms(3) by simp
  have ne: "common_fields (contents (decompose_br mayor_ul)) \<noteq> Inl IndexError"
    using assms(4) by simp
  have item: "NavigableString (pre @ '':'' @ rest) \<in> set (contents (decompose_br mayor_ul))"
    using assms(5) by simp
  have items: "\<And>d. \<exists>e. match_items (contents (decompose_br mayor_ul)) d = Inl e"
    using match_items_raises[OF item] step by blast
  have one: "\<And>lg. \<exists>e lg'. get_mayors_for_state post state lg = (Inl e, lg')"
    using get_mayors_for_state_raises[where post = post and state = state,
            OF assms(1) ul ne items] .
  then have any: "\<exists>e. fst (get_mayors_for_state post state lg) = Inl e"
    by (metis fst_conv)
  obtain ms e lg' where "get_mayors post states [] = ((ms, Some e), lg')"
    using get_mayors_raises[OF assms(2) one] by blast
  then have exit: "exit_status (main post w states) = 1" by (rule main_raises)
  have exact: "fst (get_mayors_for_state post state lg) = Inl ValueError"
    if b: "fst (parse_mayor_list before [] []) = Inr parsed"
      and f: "match_items front data0 = Inr data1" for parsed data1
  proof -
    let ?lg = "lg @ [LogRecord INFO (''found '' @ py_str_nat (length (before @ mayor_ul # after))
                       @ '' mayors for '' @ state) []]"
    have "fst (parse_mayor_list before [] ?lg) = Inr parsed"
      using b parse_mayor_list_log[of before "[]" ?lg "[]"] by simp
    then obtain lg1 where b1: "parse_mayor_list before [] ?lg = (Inr parsed, lg1)"
      by (cases "parse_mayor_list before [] ?lg") simp
    have its: "match_items (contents (decompose_br mayor_ul)) data0 = Inl ValueError"
      using f step[of data1] by (simp add: assms(5) match_items_append and_then_def)
    have "parse_mayor_list (mayor_ul # after) parsed lg1 = (Inl ValueError, lg1)"
      using assms(4) its by simp
    then have "parse_mayor_list (before @ mayor_ul # after) [] ?lg = (Inl ValueError, lg1)"
      using b1 by (simp add: parse_mayor_list_append)
    then show ?thesis
      using assms(1) assms(3) by (simp add: get_mayors_for_state_def Let_def)
  qed
  from step any exit exact show ?thesis by blast
qed

text \<open>
  A page with a valid block followed by a full block whose election date reads
  \<open>TBD\<close>: the state raises ValueError and the run exits with status one.
\<close>

theorem unparseable_date_aborts_run_witness:
  "match_item (NavigableString ''Next Election Date: TBD'') [] = Inl ValueError
   \<and> fst (get_mayors_for_state (page_of [block_peoria, block_bad_date]) ''Illinois'' []) =
       Inl ValueError
   \<and> exit_status (main (page_of [block_peoria, block_bad_date]) Csv [''Illinois'']) = 1"
proof -
  have 1: "page_of [block_peoria, block_bad_date] ''Illinois'' =
             Page (Some (Tag ''div'' [(''class'', ''post-content'')] [block_peoria, block_bad_date]))"
    by (simp add: page_of_def)
  have 2: "''Illinois'' \<in> set [''Illinois'']" by simp
  have 3: "find_all ''ul'' (Tag ''div'' [(''class'', ''post-content'')] [block_peoria, block_bad_date])
             = [block_peoria] @ block_bad_date # []"
    by (simp add: find_all_def block_bad_date_def block_peoria_def)
  have 4: "common_fields (contents (decompose_br block_bad_date)) =
             Inr [(''img_url'', PStr ''/img/lee.jpg''), (''name'', PStr ''Ann Lee''),
                  (''city'', PStr ''Springfield''), (''state'', PStr ''Illinois'')]"
    by code_simp
  have 5: "contents (decompose_br block_bad_date) =
             [NavigableString [CHR 0x0A], Tag ''img'' [(''src'', ''/img/lee.jpg'')] [],
              Tag ''b'' [] [NavigableString ''Ann Lee''],
              NavigableString ''Springfield, Illinois'']
             @ NavigableString (''Next Election Date'' @ '':'' @ '' TBD'') # []"
    by (simp add: block_bad_date_def)
  have 6: "py_in_str ''Next Election Date'' (''Next Election Date'' @ '':'' @ '' TBD'')"
    by code_simp
  have 7: "CHR '':'' \<notin> set ''Next Election Date''" by simp
  have 8: "strptime (py_strip (takeWhile (\<lambda>c. c \<noteq> CHR '':'') '' TBD'')) = Inl ValueError"
    by code_simp
  have 9: "fst (parse_mayor_list [block_peoria] [] []) =
             Inr [[(''img_url'', PStr ''/img/ray.jpg''), (''name'', PStr ''Bob Ray''),
                   (''city'', PStr ''Peoria''), (''state'', PStr ''Illinois'')]]"
    by code_simp
  have 10: "match_items
              [NavigableString [CHR 0x0A], Tag ''img'' [(''src'', ''/img/lee.jpg'')] [],
               Tag ''b'' [] [NavigableString ''Ann Lee''],
               NavigableString ''Springfield, Illinois'']
              [(''img_url'', PStr ''/img/lee.jpg''), (''name'', PStr ''Ann Lee''),
               (''city'', PStr ''Springfield''), (''state'', PStr ''Illinois'')] =
            Inr [(''img_url'', PStr ''/img/lee.jpg''), (''name'', PStr ''Ann Lee''),
                 (''city'', PStr ''Springfield''), (''state'', PStr ''Illinois'')]"
    by code_simp
  from 9 10 show ?thesis
    using unparseable_date_aborts_run[where post = "page_of [block_peoria, block_bad_date]"
          and state = "''Illinois''" and lg = "[]" and w = Csv and data = "[]",
          OF 1 2 3 4 5 6 7 8]
    by simp
qed

text \<open>
  C3 as stated fails, in four ways.  A list that holds nothing but the text
  \<open>Next Election Date: TBD\<close> raises IndexError in the \<open>try\<close> block and is skipped:
  the date is never parsed, the state yields no record and the run exits with
  status zero.  A list with that text but without its photo node raises KeyError
  in the \<open>try\<close> block: the run ends, but not by the date.  A tag whose text is
  \<open>Next Election Date: TBD\<close> is not found by the substring test, which on a tag
  looks among its children: the record is returned without an election date.  And
  for the text \<open>Next Election Date: 11/5/2024: TBD\<close> what follows the first colon
  does not parse, yet only the piece up to the second colon is parsed and the
  date is stored.
\<close>

theorem unparseable_date_not_as_stated:
  "get_mayors_for_state (page_of [short_block_bad_date]) ''Illinois'' [] =
       (Inr [], [LogRecord INFO ''found 1 mayors for Illinois'' [],
                 LogRecord ERROR ''unable to get common fields from''
                   [[NavigableString ''Next Election Date: TBD'']]])
   \<and> exit_status (main (page_of [short_block_bad_date]) Csv [''Illinois'']) = 0
   \<and> strptime (py_strip '' TBD'') = Inl ValueError
   \<and> get_mayors_for_state (page_of [block_bad_date_without_photo]) ''Illinois'' [] =
       (Inl KeyError, [LogRecord INFO ''found 1 mayors for Illinois'' []])
   \<and> py_in_str ''Next Election Date''
        (get_text (Tag ''span'' [] [NavigableString ''Next Election Date: TBD'']))
   \<and> get_mayors_for_state (page_of [block_date_in_tag]) ''Illinois'' [] =
       (Inr [[(''img_url'', PStr ''/img/lee.jpg''), (''name'', PStr ''Ann Lee''),
              (''city'', PStr ''Springfield''), (''state'', PStr ''Illinois'')]],
        [LogRecord INFO ''found 1 mayors for Illinois'' []])
   \<and> exit_status (main (page_of [block_date_in_tag]) Csv [''Illinois'']) = 0
   \<and> strptime (py_strip '' 11/5/2024: TBD'') = Inl ValueError
   \<and> get_mayors_for_state (page_of [block_date_two_colons]) ''Illinois'' [] =
       (Inr [[(''img_url'', PStr ''/img/lee.jpg''), (''name'', PStr ''Ann Lee''),
              (''city'', PStr ''Springfield''), (''state'', PStr ''Illinois''),
              (''next_election'', PStr ''2024-11-05'')]],
        [LogRecord INFO ''found 1 mayors for Illinois'' []])
   \<and> exit_status (main (page_of [block_date_two_colons]) Csv [''Illinois'']) = 0"
  by code_simp


text \<open>
  C9 (as amended).  Take a mayor list whose leading fields do not raise IndexError
  and a hyperlink node of the list that has no \<open>href\<close> attribute and whose text
  contains neither \<open>Web Site\<close> nor \<open>Bio\<close>.  The link step on that node raises
  TypeError (\<open>'tel:' in None\<close>), \<open>get_mayors_for_state\<close> raises for that state,
  and the run ends with a nonzero status: neither the node nor the record is
  skipped.
\<close>

theorem link_without_href_aborts_run:
  assumes "post state = Page (Some content)"
    and "state \<in> set states"
    and "mayor_ul \<in> set (find_all ''ul'' content)"
    and "common_fields (contents (decompose_br mayor_ul)) \<noteq> Inl IndexError"
    and "Tag ''a'' attrs cs \<in> set (contents mayor_ul)"
    and "map_of attrs ''href'' = None"
    and "\<not> py_in_str ''Web Site'' (get_text (Tag ''a'' attrs cs))"
    and "\<not> py_in_str ''Bio'' (get_text (Tag ''a'' attrs cs))"
  shows "match_link (Tag ''a'' attrs cs) data = Inl TypeError
         \<and> (\<exists>e lg'. get_mayors_for_state post state lg = (Inl e, lg'))
         \<and> exit_status (main post w states) = 1"
proof -
  have nw: "\<not> py_in ''Web Site'' (Tag ''a'' attrs cs)"
    using assms(7) py_in_get_text by blast
  have nb: "\<not> py_in ''Bio'' (Tag ''a'' attrs cs)"
    using assms(8) py_in_get_text by blast
  have link: "match_link (Tag ''a'' attrs cs) data = Inl TypeError"
    using assms(6) nw nb by (simp add: match_link_def)
  obtain cs' where cs': "decompose_br (Tag ''a'' attrs cs) = Tag ''a'' attrs cs'" by simp
  have item: "Tag ''a'' attrs cs' \<in> set (contents (decompose_br mayor_ul))"
    using link_in_decomposed[OF assms(5)] cs' by simp
  have same: "\<And>x. py_in x (Tag ''a'' attrs cs') = py_in x (Tag ''a'' attrs cs)"
    using py_in_decompose_br[of _ "Tag ''a'' attrs cs"] unfolding cs' .
  have nw': "\<not> py_in ''Web Site'' (Tag ''a'' attrs cs')"
    using nw same by blast
  have nb': "\<not> py_in ''Bio'' (Tag ''a'' attrs cs')"
    using nb same by blast
  have "\<And>data. \<exists>e. match_item (Tag ''a'' attrs cs') data = Inl e"
    using match_item_bare_link[OF assms(6) nw' nb'] by blast
  then have items: "\<And>data. \<exists>e. match_items (contents (decompose_br mayor_ul)) data = Inl e"
    using match_items_raises[OF item] by blast
  have one: "\<And>lg. \<exists>e lg'. get_mayors_for_state post state lg = (Inl e, lg')"
    using get_mayors_for_state_raises[where post = post and state = state,
            OF assms(1) assms(3) assms(4) items] .
  obtain ms e lg' where "get_mayors post states [] = ((ms, Some e), lg')"
    using get_mayors_raises[OF assms(2) one] by blast
  then have "exit_status (main post w states) = 1" by (rule main_raises)
  with one link show ?thesis by blast
qed

text \<open>The hypotheses hold for a full block that ends with a named anchor.\<close>

theorem link_without_href_aborts_run_witness:
  "match_link (Tag ''a'' [(''name'', ''top'')] [NavigableString ''Contact'']) [] = Inl TypeError
   \<and> (\<exists>e lg'. get_mayors_for_state (page_of [block_bare_link]) ''Illinois'' [] = (Inl e, lg'))
   \<and> exit_status (main (page_of [block_bare_link]) Csv [''Illinois'']) = 1"
proof -
  have 1: "page_of [block_bare_link] ''Illinois'' =
             Page (Some (Tag ''div'' [(''class'', ''post-content'')] [block_bare_link]))"
    by (simp add: page_of_def)
  have 2: "''Illinois'' \<in> set [''Illinois'']" by simp
  have 3: "block_bare_link \<in> set (find_all ''ul'' (Tag ''div'' [(''class'', ''post-content'')] [block_bare_link]))"
    by (simp add: find_all_def block_bare_link_def)
  have 4: "common_fields (contents (decompose_br block_bare_link)) \<noteq> Inl IndexError"
    by code_simp
  have 5: "Tag ''a'' [(''name'', ''top'')] [NavigableString ''Contact''] \<in> set (contents block_bare_link)"
    by (simp add: block_bare_link_def)
  have 6: "map_of [(''name'', ''top'')] ''href'' = None" by simp
  have 7: "\<not> py_in_str ''Web Site'' (get_text (Tag ''a'' [(''name'', ''top'')] [NavigableString ''Contact'']))"
    by code_simp
  have 8: "\<not> py_in_str ''Bio'' (get_text (Tag ''a'' [(''name'', ''top'')] [NavigableString ''Contact'']))"
    by code_simp
  show ?thesis
    by (rule link_without_href_aborts_run[where post = "page_of [block_bare_link]"
          and state = "''Illinois''" and lg = "[]" and w = Csv and data = "[]", OF 1 2 3 4 5 6 7 8])
qed

text \<open>
  C9 as stated fails: a list whose only child is such a hyperlink raises IndexError
  in the \<open>try\<close> block and is skipped with an error record; the link is never
  examined and the run exits with status zero.
\<close>

theorem link_without_href_in_skipped_list:
  "Tag ''a'' [(''name'', ''top'')] [NavigableString ''Contact''] \<in> set (contents short_block_bare_link)
   \<and> map_of [(''name'', ''top'')] ''href'' = None
   \<and> get_text (Tag ''a'' [(''name'', ''top'')] [NavigableString ''Contact'']) = ''Contact''
   \<and> get_mayors_for_state (page_of [short_block_bare_link]) ''Illinois'' [] =
       (Inr [], [LogRecord INFO ''found 1 mayors for Illinois'' [],
                 LogRecord ERROR ''unable to get common fields from''
                   [[Tag ''a'' [(''name'', ''top'')] [NavigableString ''Contact'']]]])
   \<and> exit_status (main (page_of [short_block_bare_link]) Csv [''Illinois'']) = 0"
  by code_simp

subsection \<open>Lists that cannot be read\<close>

text \<open>
  C1.  A page with two valid mayor blocks and, between them, a block that lacks
  its photo node.  In that block the name tag stands at index 1, and
  \<open>items[1]['src']\<close> raises KeyError, which \<open>except IndexError\<close> does not catch:
  the call raises, no record is returned and no error record is logged, where the
  two valid blocks alone yield their two records in source order.
\<close>

theorem missing_photo_block_raises:
  "common_fields (contents (decompose_br block_without_photo)) = Inl KeyError
   \<and> get_mayors_for_state (page_of [block_springfield, block_without_photo, block_peoria])
        ''Illinois'' [] =
       (Inl KeyError, [LogRecord INFO ''found 3 mayors for Illinois'' []])
   \<and> get_mayors_for_state (page_of [block_springfield, block_peoria]) ''Illinois'' [] =
       (Inr [[(''img_url'', PStr ''/img/lee.jpg''), (''name'', PStr ''Ann Lee''),
              (''city'', PStr ''Springfield''), (''state'', PStr ''Illinois''),
              (''population'', PStr '' 116250''),
              (''city_site_url'', PStr ''http://springfield.example''),
              (''next_election'', PStr ''2024-11-05''),
              (''phone'', PStr ''555-123-4567'')],
             [(''img_url'', PStr ''/img/ray.jpg''), (''name'', PStr ''Bob Ray''),
              (''city'', PStr ''Peoria''), (''state'', PStr ''Illinois'')]],
        [LogRecord INFO ''found 2 mayors for Illinois'' []])
   \<and> exit_status (main (page_of [block_springfield, block_without_photo, block_peoria])
        Json [''Illinois'']) = 1"
  by code_simp

text \<open>
  C2.  When the page has no content region, \<open>select_one\<close> gives \<open>None\<close> and
  \<open>content.find_all\<close> raises AttributeError: nothing is logged and the run exits
  with a nonzero status.
\<close>

theorem missing_content_region_raises:
  "get_mayors_for_state (\<lambda>s. Page None) state lg = (Inl AttributeError, lg)
   \<and> exit_status (main (\<lambda>s. Page None) w [state]) = 1"
proof -
  have one: "\<And>lg. get_mayors_for_state (\<lambda>s. Page None) state lg = (Inl AttributeError, lg)"
    by (simp add: get_mayors_for_state_def)
  then have "get_mayors (\<lambda>s. Page None) [state] [] = (([], Some AttributeError), [])"
    by simp
  then have "exit_status (main (\<lambda>s. Page None) w [state]) = 1" by (rule main_raises)
  with one show ?thesis by simp
qed

text \<open>
  What the \<open>try\<close> block does recover from: a list whose leading fields raise
  IndexError, as every list with fewer than two nodes does, is passed over with one
  error record, and the remaining lists are parsed.
\<close>

lemma skipped_list_is_logged:
  assumes "common_fields (contents (decompose_br mayor_ul)) = Inl IndexError"
  shows "parse_mayor_list (mayor_ul # rest) parsed_list lg =
           parse_mayor_list rest parsed_list
             (lg @ [LogRecord ERROR ''unable to get common fields from''
                      [contents (decompose_br mayor_ul)]])"
  using assms by simp

lemma short_list_IndexError:
  "length (contents (decompose_br mayor_ul)) < 2 \<Longrightarrow>
   common_fields (contents (decompose_br mayor_ul)) = Inl IndexError"
  by (simp add: common_fields_def py_index_def and_then_def)

text \<open>
  A content region without any list yields no record and one informational record,
  and the run exits with status zero.
\<close>

theorem no_mayor_lists_is_empty:
  assumes "post state = Page (Some content)" and "find_all ''ul'' content = []"
  shows "get_mayors_for_state post state lg =
           (Inr [], lg @ [LogRecord INFO (''no mayors found for '' @ state) []])
         \<and> main post Json [state] =
             ((None, ''[]''), [LogRecord INFO (''no mayors found for '' @ state) []])
         \<and> exit_status (main post w [state]) = 0"
proof -
  have one: "\<And>lg. get_mayors_for_state post state lg =
           (Inr [], lg @ [LogRecord INFO (''no mayors found for '' @ state) []])"
    using assms by (simp add: get_mayors_for_state_def)
  then have g: "get_mayors post [state] [] =
      (([], None), [LogRecord INFO (''no mayors found for '' @ state) []])"
    by simp
  have j: "main post Json [state] =
             ((None, ''[]''), [LogRecord INFO (''no mayors found for '' @ state) []])"
    using g by (simp add: main_def write_to_json_def json_list_def)
  have "exit_status (main post w [state]) = 0"
    using g by (cases w) (simp_all add: main_def exit_status_def write_to_json_def write_to_csv_def)
  with one j show ?thesis by simp
qed

theorem no_mayor_lists_is_empty_witness:
  "get_mayors_for_state (page_of []) ''Guam'' [] =
           (Inr [], [] @ [LogRecord INFO (''no mayors found for '' @ ''Guam'') []])
         \<and> main (page_of []) Json [''Guam''] =
             ((None, ''[]''), [LogRecord INFO (''no mayors found for '' @ ''Guam'') []])
         \<and> exit_status (main (page_of []) Csv [''Guam'']) = 0"
proof -
  have 1: "page_of [] ''Guam'' = Page (Some (Tag ''div'' [(''class'', ''post-content'')] []))"
    by (simp add: page_of_def)
  have 2: "find_all ''ul'' (Tag ''div'' [(''class'', ''post-content'')] []) = []"
    by (simp add: find_all_def)
  show ?thesis
    by (rule no_mayor_lists_is_empty[where post = "page_of []" and state = "''Guam''"
          and lg = "[]" and w = Csv, OF 1 2])
qed

subsection \<open>The CSV serializer\<close>

lemma CSV_FIELDS_eq:
  "CSV_FIELDS = [''name'', ''email'', ''phone'', ''bio_url'', ''img_url'', ''city'',
                 ''state'', ''population'', ''city_site_url'', ''next_election'']"
  by code_simp

lemma header_row:
  "writeheader CSV_FIELDS out =
     out @ ''name,email,phone,bio_url,img_url,city,state,population,city_site_url,next_election''
         @ [CHR 0x0D, CHR 0x0A]"
proof -
  have "writeheader CSV_FIELDS [] =
     ''name,email,phone,bio_url,img_url,city,state,population,city_site_url,next_election''
         @ [CHR 0x0D, CHR 0x0A]"
    by code_simp
  moreover have "writeheader CSV_FIELDS out = out @ writeheader CSV_FIELDS []"
    by (simp add: writeheader_def csv_writerow_def)
  ultimately show ?thesis by simp
qed

text \<open>
  C10.  For the empty sequence of records the CSV serializer writes the header row
  of the ten field names and nothing else; so does the script when the list of
  states is empty.
\<close>

theorem csv_of_no_records_is_header:
  "write_to_csv ([], None) out =
     (None, out @ ''name,email,phone,bio_url,img_url,city,state,population,city_site_url,next_election''
                @ [CHR 0x0D, CHR 0x0A])
   \<and> main post Csv [] =
     ((None, ''name,email,phone,bio_url,img_url,city,state,population,city_site_url,next_election''
                @ [CHR 0x0D, CHR 0x0A]), [])"
  by (simp add: write_to_csv_def header_row main_def)

lemma csv_field_empty: "csv_field [] = []"
  by (simp add: csv_field_def)

lemma dict_to_list_ok:
  assumes "fst ` set mayor \<subseteq> set CSV_FIELDS"
  shows "dict_to_list CSV_FIELDS mayor =
           Inr (map (\<lambda>key. case map_of mayor key of None \<Rightarrow> PStr [] | Some v \<Rightarrow> v) CSV_FIELDS)"
proof -
  have "\<not> list_ex (\<lambda>k. k \<notin> set CSV_FIELDS) (map fst mayor)"
    using assms by (auto simp: list_ex_iff)
  then show ?thesis by (simp add: dict_to_list_def)
qed

lemma csv_cell:
  "csv_field (csv_str (case x of None \<Rightarrow> PStr [] | Some v \<Rightarrow> v)) =
     (case x of None \<Rightarrow> [] | Some v \<Rightarrow> csv_field (csv_str v))"
  by (cases x) (simp_all add: csv_field_empty)

lemma writerows_all:
  assumes "\<forall>mayor \<in> set mayors. fst ` set mayor \<subseteq> set CSV_FIELDS"
  shows "writerows mayors fin out =
     (fin, out @ concat (map (\<lambda>mayor.
        py_join '',''
          (map (\<lambda>key. case map_of mayor key of None \<Rightarrow> [] | Some v \<Rightarrow> csv_field (csv_str v))
             CSV_FIELDS) @ [CHR 0x0D, CHR 0x0A]) mayors))"
  using assms
proof (induction mayors arbitrary: out)
  case Nil
  then show ?case by simp
next
  case (Cons mayor mayors)
  then have keys: "fst ` set mayor \<subseteq> set CSV_FIELDS"
    and rest: "\<forall>mayor \<in> set mayors. fst ` set mayor \<subseteq> set CSV_FIELDS" by simp_all
  show ?case
    by (simp add: dict_to_list_ok[OF keys] Cons.IH[OF rest] csv_writerow_def o_def csv_cell)
qed

lemma csv_field_explicit:
  "csv_field s =
     (if \<exists>c \<in> set s. c = CHR '','' \<or> c = CHR 0x22 \<or> c = CHR 0x0D \<or> c = CHR 0x0A
      then CHR 0x22 # concat (map (\<lambda>c. if c = CHR 0x22 then [c, c] else [c]) s) @ [CHR 0x22]
      else s)"
  by (simp add: csv_field_def list_ex_iff csv_special_def)

lemma csv_cell_explicit:
  "(case x of None \<Rightarrow> [] | Some v \<Rightarrow> csv_field (csv_str v)) =
   (case x of
      None \<Rightarrow> []
    | Some PNone \<Rightarrow> []
    | Some (PStr s) \<Rightarrow>
        if \<exists>c \<in> set s. c = CHR '','' \<or> c = CHR 0x22 \<or> c = CHR 0x0D \<or> c = CHR 0x0A
        then CHR 0x22 # concat (map (\<lambda>c. if c = CHR 0x22 then [c, c] else [c]) s) @ [CHR 0x22]
        else s)"
proof (cases x)
  case None
  then show ?thesis by simp
next
  case (Some v)
  then show ?thesis
    by (cases v) (simp_all add: csv_field_empty csv_field_explicit)
qed

text \<open>
  C7.  The field names are the ten names in the stated order.  For every sequence
  of records whose keys are field names, the CSV serializer writes the header
  row, then one row per record in arrival order, each row being the ten cells
  in the order of the field names, separated by commas and ended by CR LF.  The
  cell of a field absent on a record, or holding \<open>None\<close>, is empty; the cell of a
  text is the text itself, or, when the text has a comma, a double quote, a CR
  or a LF, the text between double quotes with each double quote doubled.
\<close>

theorem csv_header_then_rows:
  assumes "\<forall>mayor \<in> set mayors.
             fst ` set mayor \<subseteq> {''name'', ''email'', ''phone'', ''bio_url'', ''img_url'', ''city'',
                                  ''state'', ''population'', ''city_site_url'', ''next_election''}"
  shows "CSV_FIELDS = [''name'', ''email'', ''phone'', ''bio_url'', ''img_url'', ''city'',
                       ''state'', ''population'', ''city_site_url'', ''next_election'']
    \<and> write_to_csv (mayors, None) out =
      (None,
       out @ ''name,email,phone,bio_url,img_url,city,state,population,city_site_url,next_election''
           @ [CHR 0x0D, CHR 0x0A]
           @ concat (map (\<lambda>mayor.
               let cell = (\<lambda>key.
                     case map_of mayor key of
                       None \<Rightarrow> []
                     | Some PNone \<Rightarrow> []
                     | Some (PStr s) \<Rightarrow>
                         if \<exists>c \<in> set s. c = CHR '','' \<or> c = CHR 0x22 \<or> c = CHR 0x0D
                                            \<or> c = CHR 0x0A
                         then CHR 0x22
                              # concat (map (\<lambda>c. if c = CHR 0x22 then [c, c] else [c]) s)
                              @ [CHR 0x22]
                         else s)
               in cell ''name'' @ '','' @ cell ''email'' @ '','' @ cell ''phone'' @ '',''
                  @ cell ''bio_url'' @ '','' @ cell ''img_url'' @ '','' @ cell ''city'' @ '',''
                  @ cell ''state'' @ '','' @ cell ''population'' @ '',''
                  @ cell ''city_site_url'' @ '','' @ cell ''next_election''
                  @ [CHR 0x0D, CHR 0x0A]) mayors))"
proof -
  have keys: "\<forall>mayor \<in> set mayors. fst ` set mayor \<subseteq> set CSV_FIELDS"
    using assms by (simp add: CSV_FIELDS_eq)
  have "write_to_csv (mayors, None) out =
      (None, writeheader CSV_FIELDS out @ concat (map (\<lambda>mayor.
        py_join '',''
          (map (\<lambda>key. case map_of mayor key of None \<Rightarrow> [] | Some v \<Rightarrow> csv_field (csv_str v))
             CSV_FIELDS) @ [CHR 0x0D, CHR 0x0A]) mayors))"
    by (simp add: write_to_csv_def writerows_all[OF keys])
  then show ?thesis
    by (simp only: header_row csv_cell_explicit) (simp add: CSV_FIELDS_eq Let_def)
qed

text \<open>
  Two records: one whose name has a comma and whose city has a double quote, and
  one with a \<open>None\<close> name, a line feed in the city and a population.
\<close>

theorem csv_header_then_rows_witness:
  "write_to_csv ([[(''img_url'', PStr ''/img/lee.jpg''), (''name'', PStr ''Ann Lee, Jr.''),
                     (''city'', PStr (''Spring'' @ [CHR 0x22] @ ''field'')),
                     (''state'', PStr ''Illinois'')],
                    [(''img_url'', PStr ''/img/ray.jpg''), (''name'', PNone),
                     (''city'', PStr (''Peoria'' @ [CHR 0x0A] @ ''Heights'')),
                     (''state'', PStr ''Illinois''),
                     (''population'', PStr '' 113150'')]], None) [] =
      (None,
       ''name,email,phone,bio_url,img_url,city,state,population,city_site_url,next_election''
         @ [CHR 0x0D, CHR 0x0A]
         @ [CHR 0x22] @ ''Ann Lee, Jr.'' @ [CHR 0x22] @ '',,,,/img/lee.jpg,'' @ [CHR 0x22]
         @ ''Spring'' @ [CHR 0x22, CHR 0x22] @ ''field'' @ [CHR 0x22] @ '',Illinois,,,''
         @ [CHR 0x0D, CHR 0x0A]
         @ '',,,,/img/ray.jpg,'' @ [CHR 0x22] @ ''Peoria'' @ [CHR 0x0A] @ ''Heights''
         @ [CHR 0x22] @ '',Illinois, 113150,,'' @ [CHR 0x0D, CHR 0x0A])"
proof -
  have keys: "\<forall>mayor \<in> set
      [[(''img_url'', PStr ''/img/lee.jpg''), (''name'', PStr ''Ann Lee, Jr.''),
        (''city'', PStr (''Spring'' @ [CHR 0x22] @ ''field'')),
        (''state'', PStr ''Illinois'')],
       [(''img_url'', PStr ''/img/ray.jpg''), (''name'', PNone),
        (''city'', PStr (''Peoria'' @ [CHR 0x0A] @ ''Heights'')),
        (''state'', PStr ''Illinois''),
        (''population'', PStr '' 113150'')]].
      fst ` set mayor \<subseteq> {''name'', ''email'', ''phone'', ''bio_url'', ''img_url'', ''city'',
                           ''state'', ''population'', ''city_site_url'', ''next_election''}"
    by simp
  show ?thesis
    using csv_header_then_rows[OF keys, of "[]"] by simp
qed


subsection \<open>The JSON serializer\<close>

lemma newline_indent_1: "newline_indent (Suc 0) = CHR 0x0A # ''    ''"
  by (simp add: newline_indent_def numeral_eq_Suc)

lemma newline_indent_2: "newline_indent 2 = CHR 0x0A # ''        ''"
  by (simp add: newline_indent_def numeral_eq_Suc)

lemma newline_indent_0: "newline_indent 0 = [CHR 0x0A]"
  by (simp add: newline_indent_def)

lemma json_string_not_null: "json_string s \<noteq> ''null''"
  by (simp add: json_string_def)

lemma join_indent:
  "xs \<noteq> [] \<Longrightarrow>
   ind @ py_join (sep @ ind) (map f xs) =
     (ind @ f (hd xs)) @ concat (map (\<lambda>x. sep @ ind @ f x) (tl xs))"
proof (induction xs rule: induct_list012)
  case 1
  then show ?case by simp
next
  case (2 x)
  then show ?case by simp
next
  case (3 x y zs)
  then show ?case by simp
qed

lemma json_escape_explicit:
  "json_escape =
     (\<lambda>c. if c = CHR 0x22 then [CHR 0x5C, CHR 0x22]
          else if c = CHR 0x5C then [CHR 0x5C, CHR 0x5C]
          else if c = CHR 0x0A then [CHR 0x5C, CHR ''n'']
          else if c = CHR 0x0D then [CHR 0x5C, CHR ''r'']
          else if c = CHR 0x09 then [CHR 0x5C, CHR ''t'']
          else if c = CHR 0x08 then [CHR 0x5C, CHR ''b'']
          else if c = CHR 0x0C then [CHR 0x5C, CHR ''f'']
          else if (of_char c :: nat) < 32 \<or> 126 < (of_char c :: nat)
          then [CHR 0x5C, CHR ''u'', CHR ''0'', CHR ''0'',
                ''0123456789abcdef'' ! (of_char c div 16 mod 16),
                ''0123456789abcdef'' ! (of_char c mod 16)]
          else [c])"
  by (rule ext) (simp add: json_escape_def hex_digit_def)

lemma json_dict_explicit:
  "''    '' @ json_dict (Suc 0) mayor =
     (if mayor = [] then ''    {}''
      else ''    {'' @ [CHR 0x0A]
           @ (''        '' @ json_string (fst (hd mayor)) @ '': '' @ json_value (snd (hd mayor)))
           @ concat (map (\<lambda>kv. '','' @ [CHR 0x0A] @ ''        '' @ json_string (fst kv) @ '': ''
                                  @ json_value (snd kv)) (tl mayor))
           @ [CHR 0x0A] @ ''    }'')"
proof (cases "mayor = []")
  case True
  then show ?thesis by (simp add: json_dict_def)
next
  case False
  have "''        '' @ py_join ('','' @ CHR 0x0A # ''        '')
          (map (\<lambda>kv. json_string (fst kv) @ '': '' @ json_value (snd kv)) mayor) =
        (''        '' @ json_string (fst (hd mayor)) @ '': '' @ json_value (snd (hd mayor)))
        @ concat (map (\<lambda>kv. ('','' @ [CHR 0x0A]) @ ''        '' @ json_string (fst kv) @ '': ''
                                  @ json_value (snd kv)) (tl mayor))"
    using join_indent[OF False, of "''        ''" "'','' @ [CHR 0x0A]"
            "\<lambda>kv. json_string (fst kv) @ '': '' @ json_value (snd kv)"]
    by simp
  then show ?thesis
    using False by (simp add: json_dict_def newline_indent_1 newline_indent_2[unfolded numeral_2_eq_2])
qed

lemma json_list_explicit:
  "json_list 0 mayors =
     (if mayors = [] then ''[]''
      else ''['' @ [CHR 0x0A] @ (''    '' @ json_dict (Suc 0) (hd mayors))
           @ concat (map (\<lambda>m. '','' @ [CHR 0x0A] @ ''    '' @ json_dict (Suc 0) m) (tl mayors))
           @ [CHR 0x0A] @ '']'')"
proof (cases "mayors = []")
  case True
  then show ?thesis by (simp add: json_list_def)
next
  case False
  have "''    '' @ py_join ('','' @ CHR 0x0A # ''    '') (map (json_dict (Suc 0)) mayors) =
        (''    '' @ json_dict (Suc 0) (hd mayors))
        @ concat (map (\<lambda>m. ('','' @ [CHR 0x0A]) @ ''    '' @ json_dict (Suc 0) m) (tl mayors))"
    using join_indent[OF False, of "''    ''" "'','' @ [CHR 0x0A]" "json_dict (Suc 0)"] by simp
  then show ?thesis
    using False by (simp add: json_list_def newline_indent_1 newline_indent_0)
qed

text \<open>
  C8.  The JSON serializer first runs the generator to its end (an exception
  there leaves the sink untouched) and then writes one array: \<open>[]\<close> when there is
  no record, otherwise one object per record in order, each indented by four
  spaces, its members indented by eight.  The members of an object are the
  entries of the record, one \<open>"key": value\<close> line per entry in insertion order, so
  a field absent on the record has no member; the token \<open>null\<close> is written for an
  entry only when its stored value is \<open>None\<close>, and a text is written between
  double quotes, with the double quote and the backslash escaped by a backslash,
  the control characters and the characters from 127 on written as escapes.  The
  array of a record with an accented name and no phone number, a record with an
  election date and a record without fields is written out in full.
\<close>

theorem json_array_of_objects:
  "write_to_json (mayors, None) out =
     (None,
      out @
      (let esc = (\<lambda>c. if c = CHR 0x22 then [CHR 0x5C, CHR 0x22]
                       else if c = CHR 0x5C then [CHR 0x5C, CHR 0x5C]
                       else if c = CHR 0x0A then [CHR 0x5C, CHR ''n'']
                       else if c = CHR 0x0D then [CHR 0x5C, CHR ''r'']
                       else if c = CHR 0x09 then [CHR 0x5C, CHR ''t'']
                       else if c = CHR 0x08 then [CHR 0x5C, CHR ''b'']
                       else if c = CHR 0x0C then [CHR 0x5C, CHR ''f'']
                       else if (of_char c :: nat) < 32 \<or> 126 < (of_char c :: nat)
                       then [CHR 0x5C, CHR ''u'', CHR ''0'', CHR ''0'',
                             ''0123456789abcdef'' ! (of_char c div 16 mod 16),
                             ''0123456789abcdef'' ! (of_char c mod 16)]
                       else [c]);
           quoted = (\<lambda>s. CHR 0x22 # concat (map esc s) @ [CHR 0x22]);
           member = (\<lambda>kv. ''        '' @ quoted (fst kv) @ '': ''
                           @ (case snd kv of PNone \<Rightarrow> ''null'' | PStr s \<Rightarrow> quoted s));
           object = (\<lambda>mayor.
                       if mayor = [] then ''    {}''
                       else ''    {'' @ [CHR 0x0A] @ member (hd mayor)
                            @ concat (map (\<lambda>kv. '','' @ [CHR 0x0A] @ member kv) (tl mayor))
                            @ [CHR 0x0A] @ ''    }'')
       in if mayors = [] then ''[]''
          else ''['' @ [CHR 0x0A] @ object (hd mayors)
               @ concat (map (\<lambda>m. '','' @ [CHR 0x0A] @ object m) (tl mayors))
               @ [CHR 0x0A] @ '']''))
   \<and> write_to_json (mayors, Some e) out = (Some e, out)
   \<and> write_to_json
        ([[(''name'', PStr (''Jos'' @ [CHR 0xE9] @ '' '' @ [CHR 0x22] @ ''Pepe'' @ [CHR 0x22])),
           (''phone'', PNone), (''city'', PStr ''Springfield'')],
          [(''name'', PStr ''Bob Ray'')],
          []], None) [] =
     (None,
      ''['' @ [CHR 0x0A] @
      ''    {'' @ [CHR 0x0A] @
      ''        '' @ [CHR 0x22] @ ''name'' @ [CHR 0x22] @ '': '' @ [CHR 0x22] @ ''Jos''
         @ [CHR 0x5C] @ ''u00e9 '' @ [CHR 0x5C, CHR 0x22] @ ''Pepe'' @ [CHR 0x5C, CHR 0x22, CHR 0x22]
         @ '','' @ [CHR 0x0A] @
      ''        '' @ [CHR 0x22] @ ''phone'' @ [CHR 0x22] @ '': null,'' @ [CHR 0x0A] @
      ''        '' @ [CHR 0x22] @ ''city'' @ [CHR 0x22] @ '': '' @ [CHR 0x22] @ ''Springfield''
         @ [CHR 0x22] @ [CHR 0x0A] @
      ''    },'' @ [CHR 0x0A] @
      ''    {'' @ [CHR 0x0A] @
      ''        '' @ [CHR 0x22] @ ''name'' @ [CHR 0x22] @ '': '' @ [CHR 0x22] @ ''Bob Ray''
         @ [CHR 0x22] @ [CHR 0x0A] @
      ''    },'' @ [CHR 0x0A] @
      ''    {}'' @ [CHR 0x0A] @
      '']'')"
proof -
  have a: "write_to_json (mayors, None) out = (None, out @ json_list 0 mayors)"
    by (simp add: write_to_json_def)
  have v: "json_value x = (case x of PNone \<Rightarrow> ''null'' | PStr s \<Rightarrow> json_string s)" for x
    by (cases x) simp_all
  have first: "write_to_json (mayors, None) out =
     (None,
      out @
      (let esc = json_escape;
           quoted = (\<lambda>s. CHR 0x22 # concat (map esc s) @ [CHR 0x22]);
           member = (\<lambda>kv. ''        '' @ quoted (fst kv) @ '': ''
                           @ (case snd kv of PNone \<Rightarrow> ''null'' | PStr s \<Rightarrow> quoted s));
           object = (\<lambda>mayor.
                       if mayor = [] then ''    {}''
                       else ''    {'' @ [CHR 0x0A] @ member (hd mayor)
                            @ concat (map (\<lambda>kv. '','' @ [CHR 0x0A] @ member kv) (tl mayor))
                            @ [CHR 0x0A] @ ''    }'')
       in if mayors = [] then ''[]''
          else ''['' @ [CHR 0x0A] @ object (hd mayors)
               @ concat (map (\<lambda>m. '','' @ [CHR 0x0A] @ object m) (tl mayors))
               @ [CHR 0x0A] @ '']''))"
    unfolding a json_list_explicit json_dict_explicit Let_def v json_string_def
    by (simp cong: if_cong)
  have third: "write_to_json
        ([[(''name'', PStr (''Jos'' @ [CHR 0xE9] @ '' '' @ [CHR 0x22] @ ''Pepe'' @ [CHR 0x22])),
           (''phone'', PNone), (''city'', PStr ''Springfield'')],
          [(''name'', PStr ''Bob Ray'')],
          []], None) [] =
     (None,
      ''['' @ [CHR 0x0A] @
      ''    {'' @ [CHR 0x0A] @
      ''        '' @ [CHR 0x22] @ ''name'' @ [CHR 0x22] @ '': '' @ [CHR 0x22] @ ''Jos''
         @ [CHR 0x5C] @ ''u00e9 '' @ [CHR 0x5C, CHR 0x22] @ ''Pepe'' @ [CHR 0x5C, CHR 0x22, CHR 0x22]
         @ '','' @ [CHR 0x0A] @
      ''        '' @ [CHR 0x22] @ ''phone'' @ [CHR 0x22] @ '': null,'' @ [CHR 0x0A] @
      ''        '' @ [CHR 0x22] @ ''city'' @ [CHR 0x22] @ '': '' @ [CHR 0x22] @ ''Springfield''
         @ [CHR 0x22] @ [CHR 0x0A] @
      ''    },'' @ [CHR 0x0A] @
      ''    {'' @ [CHR 0x0A] @
      ''        '' @ [CHR 0x22] @ ''name'' @ [CHR 0x22] @ '': '' @ [CHR 0x22] @ ''Bob Ray''
         @ [CHR 0x22] @ [CHR 0x0A] @
      ''    },'' @ [CHR 0x0A] @
      ''    {}'' @ [CHR 0x0A] @
      '']'')"
    by code_simp
  have second: "write_to_json (mayors, Some e) out = (Some e, out)"
    by (simp add: write_to_json_def)
  from first[unfolded json_escape_explicit] second third show ?thesis by blast
qed


subsection \<open>Field normalization\<close>

lemma py_replace_delete: "py_replace old [] s = filter (\<lambda>c. c \<noteq> old) s"
  by (induction s) (simp_all add: py_replace_def)

lemma py_replace_single: "py_replace old [n] s = map (\<lambda>c. if c = old then n else c) s"
  by (induction s) (simp_all add: py_replace_def)

text \<open>
  C5.  Phone normalization deletes every parenthesis and turns every space into a
  hyphen, character by character and leaving all other characters in place; the
  input \<open>(555) 123-4567\<close> is stored as \<open>555-123-4567\<close>.
\<close>

theorem parse_phone_normalizes:
  "parse_phone (PStr s) =
     PStr (map (\<lambda>c. if c = CHR '' '' then CHR ''-'' else c)
            (filter (\<lambda>c. c \<noteq> CHR ''('' \<and> c \<noteq> CHR '')'') s))
   \<and> parse_phone (PStr ''(555) 123-4567'') = PStr ''555-123-4567''"
  by (simp add: py_replace_delete py_replace_single conj_commute)

subsection \<open>The election date\<close>

lemma py_str_nat_1: "n < 10 \<Longrightarrow> py_str_nat n = [char_of (48 + n)]"
  by (subst py_str_nat.simps) simp

lemma py_str_nat_step:
  assumes "1 \<le> k" "c < 10"
  shows "py_str_nat (10 * k + c) = py_str_nat k @ [char_of (48 + c)]"
proof -
  have "(10 * k + c) div 10 = k" "(10 * k + c) mod 10 = c" "\<not> 10 * k + c < 10"
    using assms by simp_all
  then show ?thesis by (subst py_str_nat.simps) simp
qed

lemma py_str_nat_2:
  assumes "1 \<le> a" "a < 10" "b < 10"
  shows "py_str_nat (10 * a + b) = [char_of (48 + a), char_of (48 + b)]"
  using assms by (simp add: py_str_nat_step py_str_nat_1)

lemma py_str_nat_3:
  assumes "1 \<le> a" "a < 10" "b < 10" "c < 10"
  shows "py_str_nat (100 * a + 10 * b + c) = [char_of (48 + a), char_of (48 + b), char_of (48 + c)]"
proof -
  have e: "100 * a + 10 * b + c = 10 * (10 * a + b) + c" by simp
  have "1 \<le> 10 * a + b" using assms by simp
  then have "py_str_nat (10 * (10 * a + b) + c) = py_str_nat (10 * a + b) @ [char_of (48 + c)]"
    using assms(4) by (rule py_str_nat_step)
  then show ?thesis
    by (simp only: e py_str_nat_2[OF assms(1) assms(2) assms(3)]) simp
qed

lemma py_str_nat_4:
  assumes "1 \<le> a" "a < 10" "b < 10" "c < 10" "d < 10"
  shows "py_str_nat (1000 * a + 100 * b + 10 * c + d) =
           [char_of (48 + a), char_of (48 + b), char_of (48 + c), char_of (48 + d)]"
proof -
  have e: "1000 * a + 100 * b + 10 * c + d = 10 * (100 * a + 10 * b + c) + d" by simp
  have "1 \<le> 100 * a + 10 * b + c" using assms by simp
  then have "py_str_nat (10 * (100 * a + 10 * b + c) + d) =
             py_str_nat (100 * a + 10 * b + c) @ [char_of (48 + d)]"
    using assms(5) by (rule py_str_nat_step)
  then show ?thesis
    by (simp only: e py_str_nat_3[OF assms(1) assms(2) assms(3) assms(4)]) simp
qed

lemma digit_val_lt: "is_digit c \<Longrightarrow> digit_val c < 10"
  by (auto simp: is_digit_def digit_val_def)

lemma char_of_digit_val: "is_digit c \<Longrightarrow> char_of (48 + digit_val c) = c"
proof -
  assume "is_digit c"
  then have "48 + digit_val c = (of_char c :: nat)"
    by (simp add: is_digit_def digit_val_def)
  then show ?thesis by simp
qed

lemma digit_val_pos: "is_digit c \<Longrightarrow> c \<noteq> CHR ''0'' \<Longrightarrow> 1 \<le> digit_val c"
proof -
  assume d: "is_digit c" and nz: "c \<noteq> CHR ''0''"
  have "digit_val c \<noteq> 0"
  proof
    assume z: "digit_val c = 0"
    from d z have "(of_char c :: nat) = 48"
      unfolding is_digit_def digit_val_def by linarith
    moreover have "(of_char CHR ''0'' :: nat) = 48" by simp
    ultimately have "(of_char c :: nat) = of_char CHR ''0''" by (simp only:)
    then have "c = CHR ''0''" by (rule of_char_eqI)
    with nz show False by simp
  qed
  then show ?thesis by simp
qed

lemma is_digit_not_slash: "is_digit c \<Longrightarrow> c \<noteq> CHR ''/''"
  by (auto simp: is_digit_def)

lemma is_digit_chars:
  "is_digit CHR ''0''" "is_digit CHR ''1''" "is_digit CHR ''2''" "is_digit CHR ''3''"
  "digit_val CHR ''0'' = 0" "digit_val CHR ''1'' = 1" "digit_val CHR ''2'' = 2"
  "digit_val CHR ''3'' = 3"
  by (simp_all add: is_digit_def digit_val_def)
lemma one_digit_text: "is_digit a \<Longrightarrow> zero_pad 2 (py_str_nat (digit_val a)) = [CHR ''0'', a]"
  by (simp add: py_str_nat_1 digit_val_lt char_of_digit_val zero_pad_def)

lemma two_digit_text:
  assumes "is_digit a" "a \<noteq> CHR ''0''" "is_digit b"
  shows "zero_pad 2 (py_str_nat (10 * digit_val a + digit_val b)) = [a, b]"
proof -
  have "py_str_nat (10 * digit_val a + digit_val b) =
          [char_of (48 + digit_val a), char_of (48 + digit_val b)]"
    using assms by (intro py_str_nat_2 digit_val_pos digit_val_lt)
  then show ?thesis using assms by (simp add: char_of_digit_val zero_pad_def)
qed

lemma month_of_shape:
  "month_of mm = Some m \<Longrightarrow> (\<exists>a. mm = [a]) \<or> (\<exists>a b. mm = [a, b])"
  by (cases mm rule: month_of.cases) simp_all

lemma day_of_shape:
  "day_of dd = Some d \<Longrightarrow> (\<exists>a. dd = [a]) \<or> (\<exists>a b. dd = [a, b])"
  by (cases dd rule: day_of.cases) simp_all

lemma month_text:
  assumes "month_of mm = Some m"
  shows "CHR ''/'' \<notin> set mm \<and> zero_pad 2 (py_str_nat m) = iso_two_digits mm"
proof -
  from month_of_shape[OF assms]
  consider (1) a where "mm = [a]" | (2) a b where "mm = [a, b]" by blast
  then show ?thesis
  proof cases
  case (1 a)
  with assms have "is_digit a" "m = digit_val a" by (auto split: if_splits)
  with 1 show ?thesis
    by (auto simp: one_digit_text iso_two_digits_def dest: is_digit_not_slash)
next
  case (2 a b)
  show ?thesis
  proof (cases "a = CHR ''1'' \<and> b \<in> set ''012''")
    case True
    with 2 assms have m: "m = 10 * digit_val CHR ''1'' + digit_val b"
      by (simp add: is_digit_chars)
    from True have b: "is_digit b" by (auto simp: is_digit_chars)
    have "zero_pad 2 (py_str_nat m) = [CHR ''1'', b]"
      unfolding m using b by (intro two_digit_text) (simp_all add: is_digit_chars)
    with 2 True b show ?thesis
      by (auto simp: iso_two_digits_def dest: is_digit_not_slash)
  next
    case False
    with 2 assms have f: "a = CHR ''0''" "is_digit b" "m = digit_val b"
      by (auto split: if_splits)
    with 2 show ?thesis
      by (auto simp: one_digit_text iso_two_digits_def dest: is_digit_not_slash)
  qed
  qed
qed

lemma day_text:
  assumes "day_of dd = Some d"
  shows "CHR ''/'' \<notin> set dd \<and> zero_pad 2 (py_str_nat d) = iso_two_digits dd"
proof -
  from day_of_shape[OF assms]
  consider (1) a where "dd = [a]" | (2) a b where "dd = [a, b]" by blast
  then show ?thesis
  proof cases
  case (1 a)
  with assms have "is_digit a" "d = digit_val a" by (auto split: if_splits)
  with 1 show ?thesis
    by (auto simp: one_digit_text iso_two_digits_def dest: is_digit_not_slash)
next
  case (2 a b)
  consider (thirty) "a = CHR ''3''" "b \<in> set ''01''" "d = 10 * digit_val CHR ''3'' + digit_val b"
    | (teens) "a \<in> set ''12''" "is_digit b" "d = 10 * digit_val a + digit_val b"
    | (single) "a \<in> set ''0 ''" "is_digit b" "d = digit_val b"
    using 2 assms by (auto split: if_splits simp: is_digit_chars)
  then show ?thesis
  proof cases
    case thirty
    then have b: "is_digit b" by (auto simp: is_digit_chars)
    have "zero_pad 2 (py_str_nat d) = [CHR ''3'', b]"
      unfolding thirty(3) using b by (intro two_digit_text) (simp_all add: is_digit_chars)
    with 2 thirty b show ?thesis
      by (auto simp: iso_two_digits_def dest: is_digit_not_slash)
  next
    case teens
    then have a: "is_digit a" "a \<noteq> CHR ''0''" "a \<noteq> CHR '' ''" "a \<noteq> CHR ''/''"
      by (auto simp: is_digit_chars)
    have "zero_pad 2 (py_str_nat d) = [a, b]"
      unfolding teens(3) using a teens(2) by (intro two_digit_text)
    with 2 teens a show ?thesis
      by (auto simp: iso_two_digits_def dest: is_digit_not_slash)
  next
    case single
    then have "zero_pad 2 (py_str_nat d) = [CHR ''0'', b]" by (simp add: one_digit_text)
    moreover from single have "a \<noteq> CHR ''/''" by auto
    ultimately show ?thesis using 2 single
      by (auto simp: iso_two_digits_def dest: is_digit_not_slash)
  qed
  qed
qed

lemma digit_val_zero: "is_digit c \<Longrightarrow> digit_val c = 0 \<longleftrightarrow> c = CHR ''0''"
proof
  assume d: "is_digit c" and z: "digit_val c = 0"
  show "c = CHR ''0''"
  proof (rule ccontr)
    assume "c \<noteq> CHR ''0''"
    from digit_val_pos[OF d this] z show False by simp
  qed
next
  assume "c = CHR ''0''"
  then show "digit_val c = 0" by (simp add: is_digit_chars)
qed

lemma year_text:
  assumes "year_of yyyy = Some y" "1 \<le> y"
  shows "CHR ''/'' \<notin> set yyyy \<and> py_str_nat y = dropWhile (\<lambda>c. c = CHR ''0'') yyyy"
proof -
  obtain a b c d where yyyy: "yyyy = [a, b, c, d]"
    using assms(1) by (cases yyyy rule: year_of.cases) simp_all
  with assms(1) have dig: "is_digit a" "is_digit b" "is_digit c" "is_digit d"
    and y: "y = 1000 * digit_val a + 100 * digit_val b + 10 * digit_val c + digit_val d"
    by (auto split: if_splits)
  note lt = digit_val_lt[OF dig(1)] digit_val_lt[OF dig(2)] digit_val_lt[OF dig(3)]
    digit_val_lt[OF dig(4)]
  have slash: "CHR ''/'' \<notin> set yyyy"
    using dig yyyy by (auto dest: is_digit_not_slash)
  have "py_str_nat y = dropWhile (\<lambda>c. c = CHR ''0'') [a, b, c, d]"
  proof (cases "a = CHR ''0''")
    case False
    then have "1 \<le> digit_val a" using dig(1) by (rule digit_val_pos[rotated])
    then have "py_str_nat y = [char_of (48 + digit_val a), char_of (48 + digit_val b),
         char_of (48 + digit_val c), char_of (48 + digit_val d)]"
      unfolding y using lt by (intro py_str_nat_4)
    with False dig show ?thesis by (simp add: char_of_digit_val)
  next
    case a0: True
    then have ya: "y = 100 * digit_val b + 10 * digit_val c + digit_val d"
      using y by (simp add: is_digit_chars)
    show ?thesis
    proof (cases "b = CHR ''0''")
      case False
      then have "1 \<le> digit_val b" using dig(2) by (rule digit_val_pos[rotated])
      then have "py_str_nat y = [char_of (48 + digit_val b),
           char_of (48 + digit_val c), char_of (48 + digit_val d)]"
        unfolding ya using lt by (intro py_str_nat_3)
      with False a0 dig show ?thesis by (simp add: char_of_digit_val)
    next
      case b0: True
      then have yb: "y = 10 * digit_val c + digit_val d"
        using ya by (simp add: is_digit_chars)
      show ?thesis
      proof (cases "c = CHR ''0''")
        case False
        then have "1 \<le> digit_val c" using dig(3) by (rule digit_val_pos[rotated])
        then have "py_str_nat y = [char_of (48 + digit_val c), char_of (48 + digit_val d)]"
          unfolding yb using lt by (intro py_str_nat_2)
        with False a0 b0 dig show ?thesis by (simp add: char_of_digit_val)
      next
        case c0: True
        then have yc: "y = digit_val d" using yb by (simp add: is_digit_chars)
        with assms(2) have "digit_val d \<noteq> 0" by simp
        then have dn: "d \<noteq> CHR ''0''" using digit_val_zero[OF dig(4)] by simp
        have "py_str_nat y = [char_of (48 + digit_val d)]"
          unfolding yc using lt by (intro py_str_nat_1)
        with dn a0 b0 c0 dig show ?thesis by (simp add: char_of_digit_val)
      qed
    qed
  qed
  with slash yyyy show ?thesis by simp
qed

lemma strptime_strftime:
  assumes "month_of mm = Some m" "day_of dd = Some d" "year_of yyyy = Some y"
    and "1 \<le> y" "d \<le> days_in_month y m"
  shows "strptime (mm @ ''/'' @ dd @ ''/'' @ yyyy) = Inr (y, m, d)
         \<and> strftime (y, m, d) =
             dropWhile (\<lambda>c. c = CHR ''0'') yyyy @ ''-'' @ iso_two_digits mm @ ''-''
               @ iso_two_digits dd"
proof -
  note mt = month_text[OF assms(1)] and dt = day_text[OF assms(2)]
    and yt = year_text[OF assms(3) assms(4)]
  have "py_split CHR ''/'' (mm @ CHR ''/'' # dd @ CHR ''/'' # yyyy) = [mm, dd, yyyy]"
    using mt dt yt by (simp add: py_split_first py_split_no_sep)
  then have "strptime (mm @ ''/'' @ dd @ ''/'' @ yyyy) = Inr (y, m, d)"
    using assms by (simp add: strptime_def)
  moreover have "strftime (y, m, d) =
      dropWhile (\<lambda>c. c = CHR ''0'') yyyy @ ''-'' @ iso_two_digits mm @ ''-'' @ iso_two_digits dd"
    using mt dt yt by (simp add: strftime_def)
  ultimately show ?thesis by simp
qed

lemma year_from_1000:
  assumes "year_of yyyy = Some y" "1000 \<le> y"
  shows "dropWhile (\<lambda>c. c = CHR ''0'') yyyy = yyyy"
proof -
  obtain a b c d where yyyy: "yyyy = [a, b, c, d]"
    using assms(1) by (cases yyyy rule: year_of.cases) simp_all
  with assms(1) have dig: "is_digit a" "is_digit b" "is_digit c" "is_digit d"
    and y: "y = 1000 * digit_val a + 100 * digit_val b + 10 * digit_val c + digit_val d"
    by (auto split: if_splits)
  have "a \<noteq> CHR ''0''"
  proof
    assume "a = CHR ''0''"
    then have "digit_val a = 0" by (simp add: is_digit_chars)
    with y digit_val_lt[OF dig(2)] digit_val_lt[OF dig(3)] digit_val_lt[OF dig(4)]
    have "y < 1000" by simp
    with assms(2) show False by simp
  qed
  with yyyy show ?thesis by simp
qed

text \<open>
  C6 (as amended).  For a text node that contains \<open>Next Election Date\<close>, the text
  between the first colon and the next one (or the end) is trimmed and parsed as
  \<open>MM/DD/YYYY\<close>; when it is month, slash, day, slash and a four-digit year naming
  an existing date, the record gets \<open>next_election\<close> set to the year without its
  leading zeros, a hyphen, the month on two digits, a hyphen and the day on two
  digits.  From the year 1000 on the year is written as it was read, on four
  digits.
\<close>

theorem next_election_stored_iso:
  assumes "py_in_str ''Next Election Date'' (pre @ '':'' @ rest)"
    and "CHR '':'' \<notin> set pre"
    and "py_strip (takeWhile (\<lambda>c. c \<noteq> CHR '':'') rest) = mm @ ''/'' @ dd @ ''/'' @ yyyy"
    and "month_of mm = Some m" and "day_of dd = Some d" and "year_of yyyy = Some y"
    and "1 \<le> y" and "d \<le> days_in_month y m"
  shows "match_next_election (NavigableString (pre @ '':'' @ rest)) data =
           Inr (AList.update ''next_election''
                  (PStr (dropWhile (\<lambda>c. c = CHR ''0'') yyyy @ ''-'' @ iso_two_digits mm
                           @ ''-'' @ iso_two_digits dd)) data)
         \<and> (1000 \<le> y \<longrightarrow> dropWhile (\<lambda>c. c = CHR ''0'') yyyy = yyyy)"
proof -
  have ix: "py_index (py_split CHR '':'' (pre @ CHR '':'' # rest)) 1 =
              Inr (takeWhile (\<lambda>c. c \<noteq> CHR '':'') rest)"
    using assms(2) by (rule py_index_split_1)
  note ss = strptime_strftime[OF assms(4) assms(5) assms(6) assms(7) assms(8)]
  have "match_next_election (NavigableString (pre @ '':'' @ rest)) data =
           Inr (AList.update ''next_election''
                  (PStr (dropWhile (\<lambda>c. c = CHR ''0'') yyyy @ ''-'' @ iso_two_digits mm
                           @ ''-'' @ iso_two_digits dd)) data)"
    using assms(1) ix ss by (simp add: match_next_election_def and_then_def assms(3))
  then show ?thesis using year_from_1000[OF assms(6)] by simp
qed

text \<open>The input \<open>11/5/2024\<close> is stored as \<open>2024-11-05\<close>.\<close>

theorem next_election_stored_iso_witness:
  "match_next_election (NavigableString ''Next Election Date: 11/5/2024'') [] =
     Inr [(''next_election'', PStr ''2024-11-05'')]"
proof -
  have 1: "py_in_str ''Next Election Date'' (''Next Election Date'' @ '':'' @ '' 11/5/2024'')"
    by code_simp
  have 2: "CHR '':'' \<notin> set ''Next Election Date''" by simp
  have 3: "py_strip (takeWhile (\<lambda>c. c \<noteq> CHR '':'') '' 11/5/2024'') = ''11'' @ ''/'' @ ''5'' @ ''/'' @ ''2024''"
    by code_simp
  have 4: "month_of ''11'' = Some 11" by code_simp
  have 5: "day_of ''5'' = Some 5" by code_simp
  have 6: "year_of ''2024'' = Some 2024" by code_simp
  have 7: "(1::nat) \<le> 2024" by simp
  have 8: "(5::nat) \<le> days_in_month 2024 11" by code_simp
  show ?thesis
    using next_election_stored_iso[OF 1 2 3 4 5 6 7 8, of "[]"]
    by (simp add: iso_two_digits_def)
qed

text \<open>
  C6 as stated fails: a tag whose text is \<open>Next Election Date: 11/5/2024\<close> stores
  nothing; for \<open>Next Election Date: 11/5/2024: tentative\<close> the text after the
  first colon does not parse, and the piece up to the second colon is what is
  stored; the date \<open>1/1/0999\<close> is stored as \<open>999-01-01\<close>, with a three-digit year;
  and the text \<open>TBD\<close> stores nothing and raises ValueError.
\<close>

theorem next_election_not_as_stated:
  "py_in_str ''Next Election Date''
     (get_text (Tag ''span'' [] [NavigableString ''Next Election Date: 11/5/2024'']))
   \<and> match_next_election
        (Tag ''span'' [] [NavigableString ''Next Election Date: 11/5/2024'']) [] = Inr []
   \<and> strptime (py_strip '' 11/5/2024: tentative'') = Inl ValueError
   \<and> match_next_election (NavigableString ''Next Election Date: 11/5/2024: tentative'') [] =
       Inr [(''next_election'', PStr ''2024-11-05'')]
   \<and> match_next_election (NavigableString ''Next Election Date: 1/1/0999'') [] =
       Inr [(''next_election'', PStr ''999-01-01'')]
   \<and> match_next_election (NavigableString ''Next Election Date: TBD'') [] = Inl ValueError"
  by code_simp


subsection \<open>City and state\<close>

text \<open>
  \<open>str.strip\<close> removes the whitespace on both sides of a text that starts and ends
  with other characters.
\<close>

lemma py_strip_trims:
  assumes "list_all py_isspace l" "list_all py_isspace r"
    and "core \<noteq> []" "\<not> py_isspace (hd core)" "\<not> py_isspace (last core)"
  shows "py_strip (l @ core @ r) = core"
proof -
  have "dropWhile py_isspace (l @ core @ r) = dropWhile py_isspace (core @ r)"
    using assms(1) by (simp add: dropWhile_append list_all_iff)
  also have "\<dots> = core @ r"
    using assms(3) assms(4) by (cases core) simp_all
  finally have a: "dropWhile py_isspace (l @ core @ r) = core @ r" .
  have "dropWhile py_isspace (rev r @ rev core) = dropWhile py_isspace (rev core)"
    using assms(2) by (simp add: dropWhile_append list_all_iff)
  also have "\<dots> = rev core"
    using assms(3) assms(5) by (cases core rule: rev_cases) simp_all
  finally show ?thesis by (simp add: py_strip_def a)
qed

lemma match_population_keeps:
  "match_population item data = Inr data' \<Longrightarrow> k \<noteq> ''population''
   \<Longrightarrow> map_of data' k = map_of data k"
  by (auto simp: match_population_def and_then_def AList.update_conv'
           split: if_splits sum.splits)

lemma match_next_election_keeps:
  "match_next_election item data = Inr data' \<Longrightarrow> k \<noteq> ''next_election''
   \<Longrightarrow> map_of data' k = map_of data k"
  by (auto simp: match_next_election_def and_then_def AList.update_conv'
           split: if_splits sum.splits)

lemma match_link_keeps:
  "match_link item data = Inr data' \<Longrightarrow>
   k \<notin> {''city_site_url'', ''bio_url'', ''phone'', ''email''}
   \<Longrightarrow> map_of data' k = map_of data k"
  by (auto simp: match_link_def and_then_def AList.update_conv'
           split: if_splits sum.splits option.splits)

lemma match_item_keeps:
  assumes "match_item item data = Inr data'"
    and "k \<notin> {''population'', ''next_election'', ''city_site_url'', ''bio_url'',
                 ''phone'', ''email''}"
  shows "map_of data' k = map_of data k"
proof -
  from assms(1) obtain d1 d2 where
    1: "match_population item data = Inr d1" and
    2: "match_next_election item d1 = Inr d2" and
    3: "match_link item d2 = Inr data'"
    by (auto simp: match_item_def and_then_def split: sum.splits)
  have "map_of d1 k = map_of data k" using 1 assms(2) by (intro match_population_keeps) auto
  moreover have "map_of d2 k = map_of d1 k"
    using 2 assms(2) by (intro match_next_election_keeps) auto
  moreover have "map_of data' k = map_of d2 k" using 3 assms(2) by (intro match_link_keeps) auto
  ultimately show ?thesis by simp
qed

lemma match_items_keeps:
  assumes "k \<notin> {''population'', ''next_election'', ''city_site_url'', ''bio_url'',
                 ''phone'', ''email''}"
  shows "match_items items data = Inr data' \<Longrightarrow> map_of data' k = map_of data k"
proof (induction items arbitrary: data)
  case Nil
  then show ?case by simp
next
  case (Cons item items)
  then obtain d1 where 1: "match_item item data = Inr d1" and 2: "match_items items d1 = Inr data'"
    by (auto simp: and_then_def split: sum.splits)
  from Cons.IH[OF 2] match_item_keeps[OF 1 assms] show ?case by simp
qed

lemma py_isspace_chars:
  "py_isspace c \<longleftrightarrow>
     c \<in> {CHR 0x09, CHR 0x0A, CHR 0x0B, CHR 0x0C, CHR 0x0D, CHR 0x1C, CHR 0x1D, CHR 0x1E,
           CHR 0x1F, CHR 0x20, CHR 0x85, CHR 0xA0}"
proof -
  have "(of_char c :: nat) \<in> {9, 10, 11, 12, 13, 28, 29, 30, 31, 32, 133, 160} \<longleftrightarrow>
        (of_char c :: nat) \<in> of_char `
          {CHR 0x09, CHR 0x0A, CHR 0x0B, CHR 0x0C, CHR 0x0D, CHR 0x1C, CHR 0x1D, CHR 0x1E,
           CHR 0x1F, CHR 0x20, CHR 0x85, CHR 0xA0}"
    by simp
  also have "\<dots> \<longleftrightarrow>
     c \<in> {CHR 0x09, CHR 0x0A, CHR 0x0B, CHR 0x0C, CHR 0x0D, CHR 0x1C, CHR 0x1D, CHR 0x1E,
           CHR 0x1F, CHR 0x20, CHR 0x85, CHR 0xA0}"
    by (rule inj_image_mem_iff[OF inj_of_char])
  finally show ?thesis by (simp only: py_isspace_def)
qed

lemma py_strip_all_space: "list_all py_isspace s \<Longrightarrow> py_strip s = []"
proof -
  assume "list_all py_isspace s"
  then have "dropWhile py_isspace s = []" by (simp add: list_all_iff)
  then have "py_strip s = rev (dropWhile py_isspace (rev []))" by (simp only: py_strip_def)
  then show ?thesis by simp
qed

lemma py_strip_surrounded:
  assumes "list_all py_isspace l" "list_all py_isspace r"
    and "core = [] \<or> (\<not> py_isspace (hd core) \<and> \<not> py_isspace (last core))"
  shows "py_strip (l @ core @ r) = core"
proof (cases "core = []")
  case True
  with assms(1) assms(2) show ?thesis by (simp add: py_strip_all_space)
next
  case False
  with assms show ?thesis by (intro py_strip_trims) simp_all
qed

text \<open>
  C4 (as amended).  In a list whose photo node carries a \<open>src\<close>, a city/state node
  that is a text node gives the record the city, the text before the first comma,
  and the state, the text between the first comma and the next one (or the end),
  each stripped of surrounding whitespace; the loop over the items leaves both
  fields as they are.  Stripping a text made of whitespace, a core that neither
  begins nor ends with whitespace, and whitespace again, leaves the core.
\<close>

theorem city_state_split:
  assumes "map_of attrs ''src'' = Some img"
    and "CHR '','' \<notin> set city"
  shows "common_fields (i0 # Tag n attrs cs # i2 # NavigableString (city @ '','' @ st) # rest) =
           Inr [(''img_url'', PStr img), (''name'', dot_string i2),
                (''city'', PStr (py_strip city)),
                (''state'', PStr (py_strip (takeWhile (\<lambda>c. c \<noteq> CHR '','') st)))]
    \<and> (\<forall>data'.
          match_items (i0 # Tag n attrs cs # i2 # NavigableString (city @ '','' @ st) # rest)
            [(''img_url'', PStr img), (''name'', dot_string i2),
             (''city'', PStr (py_strip city)),
             (''state'', PStr (py_strip (takeWhile (\<lambda>c. c \<noteq> CHR '','') st)))] = Inr data'
          \<longrightarrow> map_of data' ''city'' = Some (PStr (py_strip city))
              \<and> map_of data' ''state'' =
                  Some (PStr (py_strip (takeWhile (\<lambda>c. c \<noteq> CHR '','') st))))
    \<and> (\<forall>l core r.
          set l \<subseteq> {CHR 0x09, CHR 0x0A, CHR 0x0B, CHR 0x0C, CHR 0x0D, CHR 0x1C, CHR 0x1D,
                    CHR 0x1E, CHR 0x1F, CHR 0x20, CHR 0x85, CHR 0xA0}
          \<and> set r \<subseteq> {CHR 0x09, CHR 0x0A, CHR 0x0B, CHR 0x0C, CHR 0x0D, CHR 0x1C, CHR 0x1D,
                      CHR 0x1E, CHR 0x1F, CHR 0x20, CHR 0x85, CHR 0xA0}
          \<and> (core = [] \<or>
               hd core \<notin> {CHR 0x09, CHR 0x0A, CHR 0x0B, CHR 0x0C, CHR 0x0D, CHR 0x1C, CHR 0x1D,
                            CHR 0x1E, CHR 0x1F, CHR 0x20, CHR 0x85, CHR 0xA0}
               \<and> last core \<notin> {CHR 0x09, CHR 0x0A, CHR 0x0B, CHR 0x0C, CHR 0x0D, CHR 0x1C,
                                CHR 0x1D, CHR 0x1E, CHR 0x1F, CHR 0x20, CHR 0x85, CHR 0xA0})
          \<longrightarrow> py_strip (l @ core @ r) = core)"
proof -
  obtain ps where sp: "py_split CHR '','' (city @ CHR '','' # st) =
                         city # takeWhile (\<lambda>c. c \<noteq> CHR '','') st # ps"
  proof -
    have "py_split CHR '','' st \<noteq> []" by (rule py_split_nonempty)
    then obtain p ps where "py_split CHR '','' st = p # ps"
      by (cases "py_split CHR '','' st") auto
    moreover from this have "p = takeWhile (\<lambda>c. c \<noteq> CHR '','') st"
      using hd_py_split[of "CHR '',''" st] by simp
    ultimately show ?thesis using that assms(2) by (simp add: py_split_first)
  qed
  have cf: "common_fields (i0 # Tag n attrs cs # i2 # NavigableString (city @ '','' @ st) # rest) =
           Inr [(''img_url'', PStr img), (''name'', dot_string i2),
                (''city'', PStr (py_strip city)),
                (''state'', PStr (py_strip (takeWhile (\<lambda>c. c \<noteq> CHR '','') st)))]"
    using assms(1) by (simp add: common_fields_def and_then_def py_index_def sp)
  have keep: "map_of data' ''city'' = Some (PStr (py_strip city))
              \<and> map_of data' ''state'' =
                  Some (PStr (py_strip (takeWhile (\<lambda>c. c \<noteq> CHR '','') st)))"
    if "match_items (i0 # Tag n attrs cs # i2 # NavigableString (city @ '','' @ st) # rest)
            [(''img_url'', PStr img), (''name'', dot_string i2),
             (''city'', PStr (py_strip city)),
             (''state'', PStr (py_strip (takeWhile (\<lambda>c. c \<noteq> CHR '','') st)))] = Inr data'"
    for data'
  proof -
    have "map_of data' ''city'' = map_of [(''img_url'', PStr img), (''name'', dot_string i2),
             (''city'', PStr (py_strip city)),
             (''state'', PStr (py_strip (takeWhile (\<lambda>c. c \<noteq> CHR '','') st)))] ''city''"
      by (rule match_items_keeps[OF _ that]) simp
    moreover have "map_of data' ''state'' = map_of [(''img_url'', PStr img), (''name'', dot_string i2),
             (''city'', PStr (py_strip city)),
             (''state'', PStr (py_strip (takeWhile (\<lambda>c. c \<noteq> CHR '','') st)))] ''state''"
      by (rule match_items_keeps[OF _ that]) simp
    ultimately show ?thesis by simp
  qed
  have strip: "py_strip (l @ core @ r) = core"
    if "set l \<subseteq> {CHR 0x09, CHR 0x0A, CHR 0x0B, CHR 0x0C, CHR 0x0D, CHR 0x1C, CHR 0x1D,
                    CHR 0x1E, CHR 0x1F, CHR 0x20, CHR 0x85, CHR 0xA0}
          \<and> set r \<subseteq> {CHR 0x09, CHR 0x0A, CHR 0x0B, CHR 0x0C, CHR 0x0D, CHR 0x1C, CHR 0x1D,
                      CHR 0x1E, CHR 0x1F, CHR 0x20, CHR 0x85, CHR 0xA0}
          \<and> (core = [] \<or>
               hd core \<notin> {CHR 0x09, CHR 0x0A, CHR 0x0B, CHR 0x0C, CHR 0x0D, CHR 0x1C, CHR 0x1D,
                            CHR 0x1E, CHR 0x1F, CHR 0x20, CHR 0x85, CHR 0xA0}
               \<and> last core \<notin> {CHR 0x09, CHR 0x0A, CHR 0x0B, CHR 0x0C, CHR 0x0D, CHR 0x1C,
                                CHR 0x1D, CHR 0x1E, CHR 0x1F, CHR 0x20, CHR 0x85, CHR 0xA0})"
    for l core r
  proof -
    from that have "list_all py_isspace l" "list_all py_isspace r"
      by (auto simp only: list_all_iff py_isspace_chars)
    moreover from that
    have "core = [] \<or> (\<not> py_isspace (hd core) \<and> \<not> py_isspace (last core))"
      by (simp only: py_isspace_chars)
    ultimately show ?thesis by (rule py_strip_surrounded)
  qed
  from cf keep strip show ?thesis by blast
qed

text \<open>
  The text \<open>Springfield, Illinois\<close> gives city \<open>Springfield\<close> and state
  \<open>Illinois\<close>, and so does the same text with spaces and line feeds around the
  city and around the state.
\<close>

theorem city_state_split_witness:
  "common_fields [NavigableString [CHR 0x0A], Tag ''img'' [(''src'', ''/img/lee.jpg'')] [],
                  Tag ''b'' [] [NavigableString ''Ann Lee''],
                  NavigableString ''Springfield, Illinois''] =
     Inr [(''img_url'', PStr ''/img/lee.jpg''), (''name'', PStr ''Ann Lee''),
          (''city'', PStr ''Springfield''), (''state'', PStr ''Illinois'')]
   \<and> common_fields [NavigableString [CHR 0x0A], Tag ''img'' [(''src'', ''/img/lee.jpg'')] [],
                  Tag ''b'' [] [NavigableString ''Ann Lee''],
                  NavigableString ([CHR 0x0A] @ ''  Springfield '' @ '','' @ ''  Illinois ''
                                     @ [CHR 0x0A])] =
     Inr [(''img_url'', PStr ''/img/lee.jpg''), (''name'', PStr ''Ann Lee''),
          (''city'', PStr ''Springfield''), (''state'', PStr ''Illinois'')]"
proof -
  have 1: "map_of [(''src'', ''/img/lee.jpg'')] ''src'' = Some ''/img/lee.jpg''" by simp
  have 2: "CHR '','' \<notin> set ''Springfield''" by simp
  have 3: "CHR '','' \<notin> set ([CHR 0x0A] @ ''  Springfield '')" by simp
  have a: "common_fields [NavigableString [CHR 0x0A], Tag ''img'' [(''src'', ''/img/lee.jpg'')] [],
                  Tag ''b'' [] [NavigableString ''Ann Lee''],
                  NavigableString ''Springfield, Illinois''] =
     Inr [(''img_url'', PStr ''/img/lee.jpg''), (''name'', PStr ''Ann Lee''),
          (''city'', PStr ''Springfield''), (''state'', PStr ''Illinois'')]"
    using city_state_split[OF 1 2, of "NavigableString [CHR 0x0A]" "''img''" "[]"
            "Tag ''b'' [] [NavigableString ''Ann Lee'']" "'' Illinois''" "[]"]
    by (simp add: py_strip_def py_isspace_def)
  have b: "common_fields [NavigableString [CHR 0x0A], Tag ''img'' [(''src'', ''/img/lee.jpg'')] [],
                  Tag ''b'' [] [NavigableString ''Ann Lee''],
                  NavigableString ([CHR 0x0A] @ ''  Springfield '' @ '','' @ ''  Illinois ''
                                     @ [CHR 0x0A])] =
     Inr [(''img_url'', PStr ''/img/lee.jpg''), (''name'', PStr ''Ann Lee''),
          (''city'', PStr ''Springfield''), (''state'', PStr ''Illinois'')]"
    using city_state_split[OF 1 3, of "NavigableString [CHR 0x0A]" "''img''" "[]"
            "Tag ''b'' [] [NavigableString ''Ann Lee'']" "''  Illinois '' @ [CHR 0x0A]" "[]"]
    by (simp add: py_strip_def py_isspace_def)
  from a b show ?thesis by simp
qed

text \<open>
  C4 as stated fails: for the text \<open>Washington, D.C., USA\<close> the state is not what
  follows the first comma but \<open>D.C.\<close>, the piece up to the second comma; a tag
  whose text is \<open>Springfield, Illinois\<close> has no \<open>split\<close> and raises TypeError; and
  when the photo node has no \<open>src\<close> the lookup raises KeyError before the city
  and state are read.
\<close>

theorem city_state_not_as_stated:
  "common_fields [NavigableString [CHR 0x0A], Tag ''img'' [(''src'', ''/img/dc.jpg'')] [],
                  Tag ''b'' [] [NavigableString ''Dee Poe''],
                  NavigableString ''Washington, D.C., USA''] =
     Inr [(''img_url'', PStr ''/img/dc.jpg''), (''name'', PStr ''Dee Poe''),
          (''city'', PStr ''Washington''), (''state'', PStr ''D.C.'')]
   \<and> get_text (Tag ''span'' [] [NavigableString ''Springfield, Illinois'']) =
       ''Springfield, Illinois''
   \<and> common_fields [NavigableString [CHR 0x0A], Tag ''img'' [(''src'', ''/img/lee.jpg'')] [],
                  Tag ''b'' [] [NavigableString ''Ann Lee''],
                  Tag ''span'' [] [NavigableString ''Springfield, Illinois'']] = Inl TypeError
   \<and> common_fields [NavigableString [CHR 0x0A], Tag ''img'' [] [],
                  Tag ''b'' [] [NavigableString ''Ann Lee''],
                  NavigableString ''Springfield, Illinois''] = Inl KeyError"
  by code_simp


end
